theory Spec2Isabelle
  imports Complex_Main "HOL-Library.Log_Nat" "HOL-Library.AList"
begin

section \<open>Python values used by the converter\<close>

text \<open>
  The converter (\<^verbatim>\<open>sublime_color_scheme_converter.py\<close>) works on Python strings, unbounded
  integers, double-precision floats and dictionaries. Strings are modelled as \<^typ>\<open>string\<close>, one
  \<^typ>\<open>char\<close> per code point below 256; over these code points \<^verbatim>\<open>\d\<close> is \<^verbatim>\<open>[0-9]\<close>.
  Integers are unbounded: the limit that recent interpreters put on the number of digits
  \<^verbatim>\<open>int(s)\<close> accepts is a setting of the interpreter and is not part of the model.
  Every exception the code can raise is a value of \<open>error\<close>, and a function that can raise
  returns \<open>error + 'a\<close>.
\<close>

datatype error =
    KeyError string
  | ValueError
  | OverflowError
  | AttributeError
  | ZeroDivisionError

definition ebind :: "error + 'a \<Rightarrow> ('a \<Rightarrow> error + 'b) \<Rightarrow> error + 'b" where
  "ebind m f = (case m of Inl e \<Rightarrow> Inl e | Inr x \<Rightarrow> f x)"

subsection \<open>Character classes\<close>

definition ord :: "char \<Rightarrow> nat" where
  "ord c = of_char c"

definition is_digit :: "char \<Rightarrow> bool" where
  "is_digit c \<longleftrightarrow> ord CHR ''0'' \<le> ord c \<and> ord c \<le> ord CHR ''9''"

definition is_lower :: "char \<Rightarrow> bool" where
  "is_lower c \<longleftrightarrow> ord CHR ''a'' \<le> ord c \<and> ord c \<le> ord CHR ''z''"

definition is_upper :: "char \<Rightarrow> bool" where
  "is_upper c \<longleftrightarrow> ord CHR ''A'' \<le> ord c \<and> ord c \<le> ord CHR ''Z''"

text \<open>The class \<^verbatim>\<open>[0-9,a-z,A-Z]\<close> of \<^verbatim>\<open>re_hex\<close> and \<^verbatim>\<open>[a-z,A-Z,0-9]\<close> of \<^verbatim>\<open>convert_name\<close>:
  inside brackets the comma is a member of the class like any other character.\<close>

definition in_class :: "char \<Rightarrow> bool" where
  "in_class c \<longleftrightarrow> is_digit c \<or> c = CHR '','' \<or> is_lower c \<or> is_upper c"

text \<open>\<^verbatim>\<open>\s\<close> on \<^verbatim>\<open>str\<close> patterns: the Unicode whitespace below code point 256.\<close>

definition is_space :: "char \<Rightarrow> bool" where
  "is_space c \<longleftrightarrow> (let n = ord c in
     (9 \<le> n \<and> n \<le> 13) \<or> (28 \<le> n \<and> n \<le> 32) \<or> n = 133 \<or> n = 160)"

definition is_hexdigit :: "char \<Rightarrow> bool" where
  "is_hexdigit c \<longleftrightarrow> is_digit c
     \<or> (ord CHR ''a'' \<le> ord c \<and> ord c \<le> ord CHR ''f'')
     \<or> (ord CHR ''A'' \<le> ord c \<and> ord c \<le> ord CHR ''F'')"

text \<open>\<^verbatim>\<open>str.upper()\<close> on a character of the class: only \<^verbatim>\<open>a-z\<close> change.\<close>

definition upper :: "char \<Rightarrow> char" where
  "upper c = (if is_lower c then char_of (ord c - 32) else c)"

subsection \<open>Integers from and to text\<close>

definition digit_val :: "char \<Rightarrow> nat" where
  "digit_val c = (if is_digit c then ord c - 48
                  else if is_lower c then ord c - 87
                  else ord c - 55)"

text \<open>\<^verbatim>\<open>int(s)\<close> on a non-empty run of decimal digits (what \<^verbatim>\<open>(\d+)\<close> captures).\<close>

definition int_of_digits :: "string \<Rightarrow> nat" where
  "int_of_digits s = foldl (\<lambda>acc c. 10 * acc + digit_val c) 0 s"

definition hexdigit :: "nat \<Rightarrow> char" where
  "hexdigit n = ''0123456789abcdef'' ! n"

fun hex_nat :: "nat \<Rightarrow> string" where
  "hex_nat n = (if n < 16 then [hexdigit n] else hex_nat (n div 16) @ [hexdigit (n mod 16)])"

declare hex_nat.simps [simp del]

text \<open>\<^verbatim>\<open>"{:02x}".format(n)\<close>: lowercase hexadecimal, zero-padded to width 2, the sign of a
  negative number counted in the width.\<close>

definition format_02x :: "int \<Rightarrow> string" where
  "format_02x n =
     (if n < 0 then CHR ''-'' # replicate (1 - length (hex_nat (nat (- n)))) CHR ''0'' @ hex_nat (nat (- n))
      else replicate (2 - length (hex_nat (nat n))) CHR ''0'' @ hex_nat (nat n))"

subsection \<open>Double-precision floats\<close>

text \<open>
  A Python \<^verbatim>\<open>float\<close> is an IEEE 754 binary64 value: a finite number, an infinity or a
  NaN. Finite values are kept as the rational they denote. The sign of a zero is not kept:
  the converter only compares floats, does arithmetic on them and truncates them to integers,
  and none of these tells \<^verbatim>\<open>-0.0\<close> from \<^verbatim>\<open>0.0\<close>.
\<close>

datatype pyfloat = Fin rat | PInf | NInf | NaN

definition pow2 :: "int \<Rightarrow> rat" where
  "pow2 e = (if 0 \<le> e then 2 ^ nat e else 1 / 2 ^ nat (- e))"

text \<open>The exponent of a positive rational: \<open>2 ^ ilog2 q \<le> q < 2 ^ (ilog2 q + 1)\<close>.\<close>

definition ilog2 :: "rat \<Rightarrow> int" where
  "ilog2 q = (if 1 \<le> q then bitlen \<lfloor>q\<rfloor> - 1 else - bitlen (\<lceil>1 / q\<rceil> - 1))"

definition round_half_even :: "rat \<Rightarrow> int" where
  "round_half_even x =
     (let f = \<lfloor>x\<rfloor>; r = x - of_int f in
      if r < 1 / 2 then f else if 1 / 2 < r then f + 1 else if even f then f else f + 1)"

text \<open>Rounding a positive rational to the nearest multiple of the unit in the last place of
  its binade (53 significant bits; below \<open>2 ^ -1022\<close> the spacing stays \<open>2 ^ -1074\<close>),
  ties to the even significand.\<close>

definition ulp :: "rat \<Rightarrow> rat" where
  "ulp q = pow2 (max (ilog2 q) (- 1022) - 52)"

definition rd_pos :: "rat \<Rightarrow> rat" where
  "rd_pos q = of_int (round_half_even (q / ulp q)) * ulp q"

text \<open>Round to nearest, ties to even; a magnitude that rounds to \<open>2 ^ 1024\<close> or more
  overflows to an infinity.\<close>

definition rd :: "rat \<Rightarrow> pyfloat" where
  "rd q =
     (if q = 0 then Fin 0
      else if 0 < q then (if pow2 1024 \<le> rd_pos q then PInf else Fin (rd_pos q))
      else (if pow2 1024 \<le> rd_pos (- q) then NInf else Fin (- rd_pos (- q))))"

fun fneg :: "pyfloat \<Rightarrow> pyfloat" where
  "fneg (Fin a) = Fin (- a)"
| "fneg PInf = NInf"
| "fneg NInf = PInf"
| "fneg NaN = NaN"

fun fadd :: "pyfloat \<Rightarrow> pyfloat \<Rightarrow> pyfloat" where
  "fadd (Fin a) (Fin b) = rd (a + b)"
| "fadd NaN y = NaN"
| "fadd x NaN = NaN"
| "fadd PInf NInf = NaN"
| "fadd NInf PInf = NaN"
| "fadd PInf y = PInf"
| "fadd NInf y = NInf"
| "fadd (Fin a) y = y"

definition fsub :: "pyfloat \<Rightarrow> pyfloat \<Rightarrow> pyfloat" where
  "fsub x y = fadd x (fneg y)"

text \<open>The sign of a float, for the product with an infinity.\<close>

fun fsgn :: "pyfloat \<Rightarrow> int" where
  "fsgn (Fin a) = (if a < 0 then - 1 else if a = 0 then 0 else 1)"
| "fsgn PInf = 1"
| "fsgn NInf = - 1"
| "fsgn NaN = 0"

fun fmul :: "pyfloat \<Rightarrow> pyfloat \<Rightarrow> pyfloat" where
  "fmul (Fin a) (Fin b) = rd (a * b)"
| "fmul NaN y = NaN"
| "fmul x NaN = NaN"
| "fmul x y = (if fsgn x * fsgn y = 0 then NaN else if 0 < fsgn x * fsgn y then PInf else NInf)"

fun flt :: "pyfloat \<Rightarrow> pyfloat \<Rightarrow> bool" where
  "flt NaN y = False"
| "flt x NaN = False"
| "flt (Fin a) (Fin b) = (a < b)"
| "flt PInf y = False"
| "flt x PInf = True"
| "flt NInf y = (y \<noteq> NInf)"
| "flt (Fin a) NInf = False"

fun fle :: "pyfloat \<Rightarrow> pyfloat \<Rightarrow> bool" where
  "fle NaN y = False"
| "fle x NaN = False"
| "fle x y = (x = y \<or> flt x y)"

text \<open>\<^verbatim>\<open>x % 1.0\<close>: the C \<^verbatim>\<open>fmod\<close> is exact and has the sign of \<^verbatim>\<open>x\<close>; a negative
  remainder is then moved into \<open>[0, 1]\<close> by a rounded addition of \<^verbatim>\<open>1.0\<close>.\<close>

fun fmod1 :: "pyfloat \<Rightarrow> pyfloat" where
  "fmod1 (Fin a) =
     (if a - of_int \<lfloor>a\<rfloor> = 0 then Fin 0
      else if 0 < a then Fin (a - of_int \<lfloor>a\<rfloor>)
      else rd (a - of_int \<lceil>a\<rceil> + 1))"
| "fmod1 x = NaN"

text \<open>\<^verbatim>\<open>int(x)\<close> truncates towards zero and raises on a NaN or an infinity.\<close>

fun int_of_float :: "pyfloat \<Rightarrow> error + int" where
  "int_of_float (Fin a) = Inr (if 0 \<le> a then \<lfloor>a\<rfloor> else \<lceil>a\<rceil>)"
| "int_of_float NaN = Inl ValueError"
| "int_of_float x = Inl OverflowError"

text \<open>\<^verbatim>\<open>float(n)\<close> and \<^verbatim>\<open>n / d\<close> on integers are correctly rounded and raise
  \<^verbatim>\<open>OverflowError\<close> instead of returning an infinity.\<close>

definition finite_or_overflow :: "pyfloat \<Rightarrow> error + pyfloat" where
  "finite_or_overflow x = (case x of Fin a \<Rightarrow> Inr (Fin a) | _ \<Rightarrow> Inl OverflowError)"

definition float_of_int :: "int \<Rightarrow> error + pyfloat" where
  "float_of_int n = finite_or_overflow (rd (of_int n))"

definition truediv :: "int \<Rightarrow> int \<Rightarrow> error + pyfloat" where
  "truediv n d =
     (if d = 0 then Inl ZeroDivisionError else finite_or_overflow (rd (of_int n / of_int d)))"

text \<open>\<^verbatim>\<open>float(s)\<close> on the text the patterns capture for an alpha: decimal digits, then
  optionally a point and further digits (\<^verbatim>\<open>(0\.)?[0-9]+\<close> and \<^verbatim>\<open>\d+\.?\d*\<close>). The
  conversion is correctly rounded and returns an infinity on overflow. Any other text is
  answered with \<^verbatim>\<open>ValueError\<close>; no such text reaches the conversion.\<close>

definition decimal_value :: "string \<Rightarrow> rat" where
  "decimal_value s =
     (let ip = takeWhile is_digit s; fp = drop 1 (dropWhile is_digit s)
      in of_nat (int_of_digits (ip @ fp)) / 10 ^ length fp)"

definition is_decimal :: "string \<Rightarrow> bool" where
  "is_decimal s \<longleftrightarrow>
     (let ip = takeWhile is_digit s; r = dropWhile is_digit s
      in ip \<noteq> [] \<and> (r = [] \<or> (hd r = CHR ''.'' \<and> list_all is_digit (tl r))))"

definition float_of_str :: "string \<Rightarrow> error + pyfloat" where
  "float_of_str s = (if is_decimal s then Inr (rd (decimal_value s)) else Inl ValueError)"

text \<open>\<^verbatim>\<open>int(s, 16)\<close>: surrounding whitespace, an optional sign, an optional \<^verbatim>\<open>0x\<close> prefix,
  then hexadecimal digits, single underscores allowed between digits (and once after the
  prefix). The whitespace \<^verbatim>\<open>int\<close> strips is narrower than \<^verbatim>\<open>\s\<close>: the separators at code points
  28 to 31 are not part of it.\<close>

definition is_int_space :: "char \<Rightarrow> bool" where
  "is_int_space c \<longleftrightarrow> (let n = ord c in (9 \<le> n \<and> n \<le> 13) \<or> n = 32 \<or> n = 133 \<or> n = 160)"

fun hex_body :: "bool \<Rightarrow> string \<Rightarrow> bool" where
  "hex_body prev_digit [] = prev_digit"
| "hex_body prev_digit (c # cs) =
     (if c = CHR ''_'' then prev_digit \<and> hex_body False cs
      else is_hexdigit c \<and> hex_body True cs)"

definition int16 :: "string \<Rightarrow> error + int" where
  "int16 s =
     (let t = rev (dropWhile is_int_space (rev (dropWhile is_int_space s)));
          neg = (take 1 t = ''-'');
          u = (if take 1 t = ''-'' \<or> take 1 t = ''+'' then drop 1 t else t);
          v = (if take 2 u = ''0x'' \<or> take 2 u = ''0X''
               then (if take 1 (drop 2 u) = ''_'' then drop 3 u else drop 2 u) else u)
      in if hex_body False v
         then let n = int (foldl (\<lambda>acc c. 16 * acc + digit_val c) 0 (filter is_hexdigit v))
              in Inr (if neg then - n else n)
         else Inl ValueError)"

section \<open>The compiled patterns\<close>

text \<open>
  Each pattern is a function that tries to match at the start of a string and returns the
  captured groups; \<^verbatim>\<open>search\<close> tries every start position from the left. At a given
  position the patterns can match only one text: every repetition is followed by a character
  it cannot consume, so the greedy attempt decides, and where it fails no shorter one
  succeeds.
\<close>

fun strip_prefix :: "string \<Rightarrow> string \<Rightarrow> string option" where
  "strip_prefix [] s = Some s"
| "strip_prefix (p # ps) [] = None"
| "strip_prefix (p # ps) (c # cs) = (if p = c then strip_prefix ps cs else None)"

fun re_search :: "(string \<Rightarrow> 'a option) \<Rightarrow> string \<Rightarrow> 'a option" where
  "re_search m [] = m []"
| "re_search m (c # cs) = (case m (c # cs) of Some r \<Rightarrow> Some r | None \<Rightarrow> re_search m cs)"

text \<open>\<^verbatim>\<open>\d+\<close>\<close>

definition p_digits :: "string \<Rightarrow> (string \<times> string) option" where
  "p_digits t = (if takeWhile is_digit t = [] then None
                 else Some (takeWhile is_digit t, dropWhile is_digit t))"

text \<open>\<^verbatim>\<open>\s?\<close>\<close>

fun p_optspace :: "string \<Rightarrow> string" where
  "p_optspace [] = []"
| "p_optspace (c # cs) = (if is_space c then cs else c # cs)"

text \<open>\<^verbatim>\<open>re_var = var\([^\)]+\)\<close>; the result is the matched text.\<close>

definition re_var_at :: "string \<Rightarrow> string option" where
  "re_var_at s =
     (case strip_prefix ''var('' s of None \<Rightarrow> None
      | Some t \<Rightarrow>
          (let body = takeWhile (\<lambda>c. c \<noteq> CHR '')'') t; r = dropWhile (\<lambda>c. c \<noteq> CHR '')'') t
           in if body \<noteq> [] \<and> r \<noteq> [] then Some (''var('' @ body @ '')'') else None))"

text \<open>\<^verbatim>\<open>re_alpha = alpha\(((0\.)?[0-9]+)\)\<close>; the result is group 1.\<close>

definition digits_close :: "string \<Rightarrow> string option" where
  "digits_close t =
     (case p_digits t of None \<Rightarrow> None
      | Some (ds, r) \<Rightarrow> if take 1 r = '')'' then Some ds else None)"

definition re_alpha_at :: "string \<Rightarrow> string option" where
  "re_alpha_at s =
     (case strip_prefix ''alpha('' s of None \<Rightarrow> None
      | Some t \<Rightarrow>
          (case Option.bind (strip_prefix ''0.'' t) digits_close of
             Some ds \<Rightarrow> Some (''0.'' @ ds)
           | None \<Rightarrow> digits_close t))"

text \<open>\<^verbatim>\<open>re_hex = (#[0-9,a-z,A-Z]{6})([0-9,a-z,A-Z]{2})?\<close>; the result is groups 1 and 2.\<close>

definition re_hex_at :: "string \<Rightarrow> (string \<times> string option) option" where
  "re_hex_at s =
     (case s of [] \<Rightarrow> None
      | c # t \<Rightarrow>
          if c = CHR ''#'' \<and> length (take 6 t) = 6 \<and> list_all in_class (take 6 t)
          then Some (c # take 6 t,
                 if length (take 2 (drop 6 t)) = 2 \<and> list_all in_class (take 2 (drop 6 t))
                 then Some (take 2 (drop 6 t)) else None)
          else None)"

text \<open>The tail \<^verbatim>\<open>(,\s?(\d+\.?\d*))?\)\<close> shared by \<^verbatim>\<open>re_rgb\<close> and \<^verbatim>\<open>re_hsl\<close>;
  the result is group 5.\<close>

definition p_number :: "string \<Rightarrow> (string \<times> string) option" where
  "p_number t =
     (case p_digits t of None \<Rightarrow> None
      | Some (ds, r) \<Rightarrow>
          (let pt = (if take 1 r = ''.'' then ''.'' else []); r' = drop (length pt) r
           in Some (ds @ pt @ takeWhile is_digit r', dropWhile is_digit r')))"

definition p_alpha_tail :: "string \<Rightarrow> string option option" where
  "p_alpha_tail t =
     (case Option.bind (strip_prefix '','' t) (\<lambda>t'. p_number (p_optspace t')) of
        Some (g5, r) \<Rightarrow>
          if take 1 r = '')'' then Some (Some g5)
          else if take 1 t = '')'' then Some None else None
      | None \<Rightarrow> if take 1 t = '')'' then Some None else None)"

text \<open>\<^verbatim>\<open>re_rgb = rgb\((\d+),\s?(\d+),\s?(\d+)(,\s?(\d+\.?\d*))?\)\<close>; groups 1, 2, 3, 5.\<close>

definition re_rgb_at :: "string \<Rightarrow> (string \<times> string \<times> string \<times> string option) option" where
  "re_rgb_at s =
     Option.bind (strip_prefix ''rgb('' s) (\<lambda>t0.
     Option.bind (p_digits t0) (\<lambda>(g1, t1).
     Option.bind (strip_prefix '','' t1) (\<lambda>t2.
     Option.bind (p_digits (p_optspace t2)) (\<lambda>(g2, t3).
     Option.bind (strip_prefix '','' t3) (\<lambda>t4.
     Option.bind (p_digits (p_optspace t4)) (\<lambda>(g3, t5).
     Option.bind (p_alpha_tail t5) (\<lambda>g5. Some (g1, g2, g3, g5))))))))"

text \<open>\<^verbatim>\<open>re_hsl = hsl\((\d+),\s?(\d+)%,\s?(\d+)%(,\s?(\d+\.?\d*))?\)\<close>; groups 1, 2, 3, 5.\<close>

definition re_hsl_at :: "string \<Rightarrow> (string \<times> string \<times> string \<times> string option) option" where
  "re_hsl_at s =
     Option.bind (strip_prefix ''hsl('' s) (\<lambda>t0.
     Option.bind (p_digits t0) (\<lambda>(g1, t1).
     Option.bind (strip_prefix '','' t1) (\<lambda>t2.
     Option.bind (p_digits (p_optspace t2)) (\<lambda>(g2, t3).
     Option.bind (strip_prefix ''%,'' t3) (\<lambda>t4.
     Option.bind (p_digits (p_optspace t4)) (\<lambda>(g3, t5).
     Option.bind (strip_prefix ''%'' t5) (\<lambda>t6.
     Option.bind (p_alpha_tail t6) (\<lambda>g5. Some (g1, g2, g3, g5)))))))))"

section \<open>The colour functions\<close>

text \<open>
  An alpha travels through the code as a float (from an \<^verbatim>\<open>alpha(...)\<close> adjuster), as the
  text of group 5 of \<^verbatim>\<open>re_rgb\<close> or \<^verbatim>\<open>re_hsl\<close>, or as the integer that \<^verbatim>\<open>get_alpha_hex\<close> reads
  back; \<^verbatim>\<open>None\<close> is \<open>None\<close>. \<open>truthy\<close> is the test \<^verbatim>\<open>if a:\<close>.
\<close>

datatype alpha = AFloat pyfloat | AStr string | AInt int

fun truthy :: "alpha option \<Rightarrow> bool" where
  "truthy None = False"
| "truthy (Some (AFloat x)) = (x \<noteq> Fin 0)"
| "truthy (Some (AStr s)) = (s \<noteq> [])"
| "truthy (Some (AInt n)) = (n \<noteq> 0)"

fun to_float :: "alpha \<Rightarrow> error + pyfloat" where
  "to_float (AFloat x) = Inr x"
| "to_float (AStr s) = float_of_str s"
| "to_float (AInt n) = float_of_int n"

definition alpha_to_hex :: "alpha \<Rightarrow> error + string" where
  "alpha_to_hex a =
     ebind (to_float a) (\<lambda>x.
     ebind (int_of_float (fmul (Fin 255) x)) (\<lambda>n. Inr (format_02x n)))"

definition hexa_to_hex :: "string \<Rightarrow> alpha \<Rightarrow> error + string" where
  "hexa_to_hex hex a = ebind (alpha_to_hex a) (\<lambda>h. Inr (take 7 hex @ h))"

definition rgb_to_hex :: "int \<Rightarrow> int \<Rightarrow> int \<Rightarrow> alpha option \<Rightarrow> error + string" where
  "rgb_to_hex r g b a =
     (let hexcode = ''#'' @ format_02x r @ format_02x g @ format_02x b
      in if truthy a then ebind (alpha_to_hex (the a)) (\<lambda>h. Inr (hexcode @ h))
         else Inr hexcode)"

definition get_alpha_adjuster :: "string \<Rightarrow> alpha option \<Rightarrow> error + alpha option" where
  "get_alpha_adjuster string dflt =
     (case re_search re_alpha_at string of
        Some g1 \<Rightarrow> ebind (float_of_str g1) (\<lambda>x. Inr (Some (AFloat x)))
      | None \<Rightarrow> Inr dflt)"

definition get_alpha_hex :: "string \<Rightarrow> error + alpha option" where
  "get_alpha_hex hexcode =
     (if length hexcode < 8 then Inr None
      else ebind (int16 (drop 7 hexcode)) (\<lambda>n. Inr (Some (AInt n))))"

definition match_hex :: "string \<Rightarrow> error + string option" where
  "match_hex string =
     (case re_search re_hex_at string of
        None \<Rightarrow> Inr None
      | Some (g1, g2) \<Rightarrow>
          ebind (get_alpha_adjuster string None) (\<lambda>alpha.
            if truthy alpha then ebind (alpha_to_hex (the alpha)) (\<lambda>h. Inr (Some (g1 @ h)))
            else (case g2 of
                    Some t \<Rightarrow> if t \<noteq> [] then Inr (Some (g1 @ t)) else Inr (Some g1)
                  | None \<Rightarrow> Inr (Some g1))))"

definition match_rgb :: "string \<Rightarrow> error + string option" where
  "match_rgb string =
     (case re_search re_rgb_at string of
        None \<Rightarrow> Inr None
      | Some (g1, g2, g3, g5) \<Rightarrow>
          ebind (get_alpha_adjuster string (map_option AStr g5)) (\<lambda>a.
          ebind (rgb_to_hex (int (int_of_digits g1)) (int (int_of_digits g2))
                   (int (int_of_digits g3)) a) (\<lambda>h. Inr (Some h))))"

subsection \<open>The library function \<^verbatim>\<open>colorsys.hls_to_rgb\<close>\<close>

text \<open>
  \<^verbatim>\<open>match_hsl\<close> calls \<^verbatim>\<open>colorsys.hls_to_rgb\<close> of the Python standard library, whose body is
  \<^verbatim>\<open>
  def hls_to_rgb(h, l, s):
      if s == 0.0: return l, l, l
      if l <= 0.5: m2 = l * (1.0+s)
      else: m2 = l+s-(l*s)
      m1 = 2.0*l - m2
      return (_v(m1, m2, h+ONE_THIRD), _v(m1, m2, h), _v(m1, m2, h-ONE_THIRD))

  def _v(m1, m2, hue):
      hue = hue % 1.0
      if hue < ONE_SIXTH: return m1 + (m2-m1)*hue*6.0
      if hue < 0.5: return m2
      if hue < TWO_THIRD: return m1 + (m2-m1)*(TWO_THIRD-hue)*6.0
      return m1
  \<close>
  with \<^verbatim>\<open>ONE_THIRD = 1.0/3.0\<close>, \<^verbatim>\<open>ONE_SIXTH = 1.0/6.0\<close> and \<^verbatim>\<open>TWO_THIRD = 2.0/3.0\<close>.
  The helper \<^verbatim>\<open>_v\<close> is \<open>v_hue\<close> here.
\<close>

definition ONE_THIRD :: pyfloat where "ONE_THIRD = rd (1 / 3)"
definition ONE_SIXTH :: pyfloat where "ONE_SIXTH = rd (1 / 6)"
definition TWO_THIRD :: pyfloat where "TWO_THIRD = rd (2 / 3)"

definition v_hue :: "pyfloat \<Rightarrow> pyfloat \<Rightarrow> pyfloat \<Rightarrow> pyfloat" where
  "v_hue m1 m2 hue0 =
     (let hue = fmod1 hue0
      in if flt hue ONE_SIXTH then fadd m1 (fmul (fmul (fsub m2 m1) hue) (Fin 6))
         else if flt hue (Fin (1 / 2)) then m2
         else if flt hue TWO_THIRD
           then fadd m1 (fmul (fmul (fsub m2 m1) (fsub TWO_THIRD hue)) (Fin 6))
         else m1)"

definition hls_to_rgb :: "pyfloat \<Rightarrow> pyfloat \<Rightarrow> pyfloat \<Rightarrow> pyfloat \<times> pyfloat \<times> pyfloat" where
  "hls_to_rgb h l s =
     (if s = Fin 0 then (l, l, l)
      else
        let m2 = (if fle l (Fin (1 / 2)) then fmul l (fadd (Fin 1) s)
                  else fsub (fadd l s) (fmul l s));
            m1 = fsub (fmul (Fin 2) l) m2
        in (v_hue m1 m2 (fadd h ONE_THIRD), v_hue m1 m2 h, v_hue m1 m2 (fsub h ONE_THIRD)))"

definition match_hsl :: "string \<Rightarrow> error + string option" where
  "match_hsl string =
     (case re_search re_hsl_at string of
        None \<Rightarrow> Inr None
      | Some (g1, g2, g3, g5) \<Rightarrow>
          ebind (truediv (int (int_of_digits g1)) 360) (\<lambda>h.
          ebind (truediv (int (int_of_digits g2)) 100) (\<lambda>s.
          ebind (truediv (int (int_of_digits g3)) 100) (\<lambda>l.
          ebind (get_alpha_adjuster string (map_option AStr g5)) (\<lambda>a.
            (case hls_to_rgb h l s of (vr, vg, vb) \<Rightarrow>
               ebind (int_of_float vr) (\<lambda>r.
               ebind (int_of_float vg) (\<lambda>g.
               ebind (int_of_float vb) (\<lambda>b.
               ebind (rgb_to_hex (255 * r) (255 * g) (255 * b) a) (\<lambda>hx. Inr (Some hx)))))))))))"

text \<open>\<^verbatim>\<open>if not hexcode\<close> and \<^verbatim>\<open>if hexcode\<close> test for \<^verbatim>\<open>None\<close> or the empty string.\<close>

definition falsy :: "string option \<Rightarrow> bool" where
  "falsy h \<longleftrightarrow> h = None \<or> h = Some []"

definition try_match_color :: "string \<Rightarrow> error + string" where
  "try_match_color string =
     ebind (match_hex string) (\<lambda>h1.
     ebind (if falsy h1 then match_rgb string else Inr h1) (\<lambda>h2.
     ebind (if falsy h2 then match_hsl string else Inr h2) (\<lambda>h3.
       if falsy h3 then Inr string
       else
         ebind (get_alpha_hex (the h3)) (\<lambda>d.
         ebind (get_alpha_adjuster string d) (\<lambda>alpha.
           if truthy alpha then hexa_to_hex (take 7 (the h3)) (the alpha)
           else Inr (the h3))))))"

section \<open>Names, scopes and variables\<close>

text \<open>\<^verbatim>\<open>re.sub("_([a-z,A-Z,0-9])", lambda match: match.group(1).upper(), string)\<close>\<close>

fun convert_name :: "string \<Rightarrow> string" where
  "convert_name [] = []"
| "convert_name [c] = [c]"
| "convert_name (c # d # cs) =
     (if c = CHR ''_'' \<and> in_class d then upper d # convert_name cs
      else c # convert_name (d # cs))"

text \<open>\<^verbatim>\<open>re.sub("\s(-|\|)\s", ", ", parsed)\<close>\<close>

fun sub_separator :: "string \<Rightarrow> string" where
  "sub_separator (a # b # c # cs) =
     (if is_space a \<and> (b = CHR ''-'' \<or> b = CHR ''|'') \<and> is_space c
      then '', '' @ sub_separator cs
      else a # sub_separator (b # c # cs))"
| "sub_separator cs = cs"

text \<open>\<^verbatim>\<open>re.sub("\s*(\(|\))\s*", " ", parsed)\<close>: a match starts where a (possibly empty) run of
  whitespace is followed by a parenthesis, and takes the whitespace after it too.\<close>

function sub_paren :: "string \<Rightarrow> string" where
  "sub_paren [] = []"
| "sub_paren (c # cs) =
     (case dropWhile is_space (c # cs) of
        [] \<Rightarrow> c # sub_paren cs
      | p # r \<Rightarrow>
          if p = CHR ''('' \<or> p = CHR '')'' then '' '' @ sub_paren (dropWhile is_space r)
          else c # sub_paren cs)"
  by pat_completeness auto
termination
proof (relation "measure length")
  fix c cs p r
  assume eq: "dropWhile is_space (c # cs) = p # r"
  have "length (dropWhile is_space r) \<le> length r"
    by (rule length_dropWhile_le)
  moreover have "length (p # r) \<le> length (c # cs)"
    unfolding eq [symmetric] by (rule length_dropWhile_le)
  ultimately show "(dropWhile is_space r, c # cs) \<in> measure length"
    by simp
qed auto

definition parse_scope :: "string \<Rightarrow> string" where
  "parse_scope scope = sub_paren (sub_separator (convert_name scope))"

text \<open>\<^verbatim>\<open>str.replace(old, new)\<close>: every non-overlapping occurrence, from the left.\<close>

function replace :: "string \<Rightarrow> string \<Rightarrow> string \<Rightarrow> string" where
  "replace old new [] = (if old = [] then new else [])"
| "replace old new (c # cs) =
     (if old = [] then new @ c # replace old new cs
      else if take (length old) (c # cs) = old
        then new @ replace old new (drop (length old) (c # cs))
      else c # replace old new cs)"
  by pat_completeness auto
termination
  by (relation "measure (\<lambda>(old, new, s). length s)") auto

text \<open>
  A dictionary is an association list in insertion order: \<^const>\<open>map_of\<close> looks a key up,
  \<^const>\<open>AList.update\<close> assigns (in place for a key that is present, at the end otherwise) and
  \<^const>\<open>AList.delete\<close> removes. The keys of a dictionary are distinct. The values of the
  settings are strings. The variables table is \<open>None\<close> when the document has no
  \<^verbatim>\<open>variables\<close> field.
\<close>

type_synonym dict = "(string \<times> string) list"

definition parse_color :: "string \<Rightarrow> dict option \<Rightarrow> error + string" where
  "parse_color key variables =
     (if (case variables of None \<Rightarrow> False | Some vs \<Rightarrow> vs \<noteq> [] \<and> key \<in> set (map fst vs))
      then (case map_of (the variables) key of
              Some v \<Rightarrow> try_match_color v
            | None \<Rightarrow> Inl (KeyError key))
      else (case re_search re_var_at key of
              Some var \<Rightarrow>
                (case variables of
                   None \<Rightarrow> Inl AttributeError
                 | Some vs \<Rightarrow>
                     (let color = (case map_of vs var of Some c \<Rightarrow> c | None \<Rightarrow> var)
                      in try_match_color (replace var color key)))
            | None \<Rightarrow> try_match_color key))"

fun parse_settings_from :: "dict \<Rightarrow> dict \<Rightarrow> dict option \<Rightarrow> error + dict" where
  "parse_settings_from parsed [] variables = Inr parsed"
| "parse_settings_from parsed ((key, val) # rest) variables =
     ebind (parse_color val variables) (\<lambda>c.
       parse_settings_from (AList.update (convert_name key) c parsed) rest variables)"

definition parse_settings :: "dict \<Rightarrow> dict option \<Rightarrow> error + dict" where
  "parse_settings settings variables = parse_settings_from [] settings variables"

section \<open>Rules and the document\<close>

record rule =
  rule_name :: "string option"
  rule_scope :: "string option"
  rule_settings :: dict

record theme =
  theme_name :: string
  theme_author :: string
  theme_settings :: "rule list"

record source =
  src_name :: "string option"
  src_author :: "string option"
  src_variables :: "dict option"
  src_globals :: "dict option"
  src_rules :: "dict list option"

text \<open>\<^verbatim>\<open>settings.pop(k, None)\<close> followed by the test \<^verbatim>\<open>if name:\<close>.\<close>

definition popped :: "string \<Rightarrow> dict \<Rightarrow> string option" where
  "popped k settings = (case map_of settings k of Some v \<Rightarrow> if v \<noteq> [] then Some v else None | None \<Rightarrow> None)"

definition parse_rule :: "dict \<Rightarrow> dict option \<Rightarrow> error + rule" where
  "parse_rule settings variables =
     (let name = popped ''name'' settings;
          settings1 = AList.delete ''name'' settings;
          scope = popped ''scope'' settings1;
          settings2 = AList.delete ''scope'' settings1
      in ebind (parse_settings settings2 variables) (\<lambda>ps.
           Inr \<lparr>rule_name = name, rule_scope = map_option parse_scope scope, rule_settings = ps\<rparr>))"

fun parse_rules :: "dict list \<Rightarrow> dict option \<Rightarrow> error + rule list" where
  "parse_rules [] variables = Inr []"
| "parse_rules (settings # rest) variables =
     ebind (parse_rule settings variables) (\<lambda>r.
     ebind (parse_rules rest variables) (\<lambda>rs. Inr (r # rs)))"

text \<open>\<^verbatim>\<open>for key in list(variables): variables["var({})".format(key)] = variables.pop(key)\<close>\<close>

fun wrap_variables :: "string list \<Rightarrow> dict \<Rightarrow> error + dict" where
  "wrap_variables [] vs = Inr vs"
| "wrap_variables (key # keys) vs =
     (case map_of vs key of
        None \<Rightarrow> Inl (KeyError key)
      | Some v \<Rightarrow> wrap_variables keys (AList.update (''var('' @ key @ '')'') v (AList.delete key vs)))"

definition parse :: "source \<Rightarrow> error + theme" where
  "parse src =
     (let name = (case src_name src of Some n \<Rightarrow> n | None \<Rightarrow> ''undefined'');
          author = (case src_author src of Some a \<Rightarrow> a | None \<Rightarrow> ''undefined'');
          variables = src_variables src
      in case src_globals src of
           None \<Rightarrow> Inl (KeyError ''globals'')
         | Some globals \<Rightarrow>
             (case src_rules src of
                None \<Rightarrow> Inl (KeyError ''rules'')
              | Some rules \<Rightarrow>
                  ebind (case variables of
                           None \<Rightarrow> Inr None
                         | Some vs \<Rightarrow>
                             if vs \<noteq> [] then ebind (wrap_variables (map fst vs) vs) (\<lambda>vs'. Inr (Some vs'))
                             else Inr (Some vs)) (\<lambda>variables.
                  ebind (parse_settings globals variables) (\<lambda>settings.
                  ebind (parse_rules rules variables) (\<lambda>rules.
                    Inr \<lparr>theme_name = name, theme_author = author,
                         theme_settings =
                           \<lparr>rule_name = None, rule_scope = None, rule_settings = settings\<rparr> # rules\<rparr>)))))"

section \<open>The shape of a resolved colour\<close>

text \<open>A canonical colour literal: \<^verbatim>\<open>#\<close>, six hexadecimal digits, and optionally exactly two
  more for the alpha.\<close>

definition canonical_literal :: "string \<Rightarrow> bool" where
  "canonical_literal s \<longleftrightarrow>
     (length s = 7 \<or> length s = 9) \<and> take 1 s = ''#'' \<and> list_all is_hexdigit (drop 1 s)"

section \<open>Where the patterns of \<^verbatim>\<open>parse_scope\<close> do not match\<close>

text \<open>\<open>separator_free s\<close>: the pattern \<^verbatim>\<open>\s(-|\|)\s\<close> matches at no position of \<open>s\<close>.\<close>

fun separator_free :: "string \<Rightarrow> bool" where
  "separator_free (a # b # c # cs) \<longleftrightarrow>
     \<not> (is_space a \<and> (b = CHR ''-'' \<or> b = CHR ''|'') \<and> is_space c) \<and> separator_free (b # c # cs)"
| "separator_free cs \<longleftrightarrow> True"

text \<open>A match of \<^verbatim>\<open>\s(-|\|)\s\<close>, and a word of a selector: no whitespace, underscore or
  parenthesis (hyphens, bars, dots and commas are allowed).\<close>

definition is_separator :: "string \<Rightarrow> bool" where
  "is_separator m \<longleftrightarrow>
     length m = 3 \<and> is_space (m ! 0) \<and> (m ! 1 = CHR ''-'' \<or> m ! 1 = CHR ''|'') \<and> is_space (m ! 2)"

definition scope_word :: "string \<Rightarrow> bool" where
  "scope_word w \<longleftrightarrow>
     list_all (\<lambda>c. \<not> is_space c \<and> c \<noteq> CHR ''_'' \<and> c \<noteq> CHR ''('' \<and> c \<noteq> CHR '')'') w"

section \<open>Facts about the rounding of floats\<close>

lemma pow2_powi: "pow2 e = 2 powi e"
  by (simp add: pow2_def power_int_def field_simps)

lemma pow2_pos: "0 < pow2 e"
  by (simp add: pow2_powi)

lemma pow2_add: "pow2 (a + b) = pow2 a * pow2 b"
  by (simp add: pow2_powi power_int_add)

lemma pow2_mono: "a \<le> b \<Longrightarrow> pow2 a \<le> pow2 b"
  by (simp add: pow2_powi power_int_increasing)

lemma pow2_strict_mono: "a < b \<Longrightarrow> pow2 a < pow2 b"
  by (simp add: pow2_powi power_int_strict_increasing)

lemma pow2_nat: "0 \<le> e \<Longrightarrow> pow2 e = 2 ^ nat e"
  by (simp add: pow2_def)

lemma pow2_neg: "0 \<le> k \<Longrightarrow> pow2 (- k) = 1 / 2 ^ nat k"
  by (cases "k = 0") (simp_all add: pow2_def)

lemma ilog2_bounds_ge1:
  assumes "1 \<le> q"
  shows "pow2 (ilog2 q) \<le> q \<and> q < pow2 (ilog2 q + 1)"
proof -
  define n where "n = \<lfloor>q\<rfloor>"
  have n1: "1 \<le> n" using assms by (simp add: n_def le_floor_iff)
  then have npos: "0 < n" by simp
  have bl: "1 \<le> bitlen n" using npos by (simp add: bitlen_alt_def)
  from bitlen_bounds [OF npos]
  have lo: "2 ^ nat (bitlen n - 1) \<le> n" and hi: "n < 2 ^ nat (bitlen n)" by auto
  have e: "ilog2 q = bitlen n - 1" using assms by (simp add: ilog2_def n_def)
  have "pow2 (bitlen n - 1) = of_int (2 ^ nat (bitlen n - 1))"
    using bl by (simp add: pow2_nat)
  also have "\<dots> \<le> of_int n" using lo by (simp only: of_int_le_iff)
  also have "\<dots> \<le> q" by (simp add: n_def)
  finally have A: "pow2 (ilog2 q) \<le> q" by (simp add: e)
  have "n + 1 \<le> 2 ^ nat (bitlen n)" using hi by simp
  then have hi': "(of_int (n + 1) :: rat) \<le> of_int (2 ^ nat (bitlen n))"
    by (simp only: of_int_le_iff)
  have "q < of_int (n + 1)" unfolding n_def by simp linarith
  also have "(of_int (n + 1) :: rat) \<le> of_int (2 ^ nat (bitlen n))" by (rule hi')
  also have "(of_int (2 ^ nat (bitlen n)) :: rat) = pow2 (bitlen n)" using bl by (simp add: pow2_nat)
  finally have B: "q < pow2 (ilog2 q + 1)" by (simp add: e)
  from A B show ?thesis by simp
qed

lemma ilog2_bounds_lt1:
  assumes "0 < q" "q < 1"
  shows "pow2 (ilog2 q) \<le> q \<and> q < pow2 (ilog2 q + 1)"
proof -
  define M where "M = \<lceil>1 / q\<rceil> - 1"
  have inv: "1 < 1 / q" using assms by simp
  then have "1 < \<lceil>1 / q\<rceil>" by (simp add: less_ceiling_iff)
  then have Mpos: "0 < M" by (simp add: M_def)
  have bl: "1 \<le> bitlen M" using Mpos by (simp add: bitlen_alt_def)
  from bitlen_bounds [OF Mpos]
  have lo: "2 ^ nat (bitlen M - 1) \<le> M" and hi: "M < 2 ^ nat (bitlen M)" by auto
  have e: "ilog2 q = - bitlen M" using assms by (simp add: ilog2_def M_def)
  have "M + 1 \<le> 2 ^ nat (bitlen M)" using hi by simp
  then have hi': "(of_int (M + 1) :: rat) \<le> of_int (2 ^ nat (bitlen M))"
    by (simp only: of_int_le_iff)
  have "1 / q \<le> of_int (M + 1)" by (simp add: M_def)
  also have "(of_int (M + 1) :: rat) \<le> of_int (2 ^ nat (bitlen M))" by (rule hi')
  finally have "1 / q \<le> 2 ^ nat (bitlen M)" by simp
  then have "1 \<le> 2 ^ nat (bitlen M) * q"
    using assms(1) by (simp add: field_simps)
  then have "1 / 2 ^ nat (bitlen M) \<le> q"
    by (simp add: field_simps)
  then have A: "pow2 (ilog2 q) \<le> q"
    using bl by (simp add: e pow2_neg)
  have "(of_int (2 ^ nat (bitlen M - 1)) :: rat) \<le> of_int M"
    using lo by (simp only: of_int_le_iff)
  also have "of_int M < 1 / q"
    unfolding M_def using ceiling_correct [of "1 / q"] by simp
  finally have "2 ^ nat (bitlen M - 1) < 1 / q" by simp
  then have "2 ^ nat (bitlen M - 1) * q < 1"
    using assms(1) by (simp add: field_simps)
  then have "q < 1 / 2 ^ nat (bitlen M - 1)"
    by (simp add: field_simps)
  moreover have "pow2 (- (bitlen M - 1)) = 1 / 2 ^ nat (bitlen M - 1)"
    using bl by (intro pow2_neg) simp
  ultimately have B: "q < pow2 (ilog2 q + 1)"
    by (simp add: e)
  from A B show ?thesis by simp
qed

lemma ilog2_bounds:
  assumes "0 < q"
  shows "pow2 (ilog2 q) \<le> q" and "q < pow2 (ilog2 q + 1)"
  using ilog2_bounds_ge1 [of q] ilog2_bounds_lt1 [of q] assms
  by (cases "1 \<le> q"; simp)+

lemma ilog2_unique:
  assumes "0 < q" "pow2 e \<le> q" "q < pow2 (e + 1)"
  shows "ilog2 q = e"
proof (rule ccontr)
  assume ne: "ilog2 q \<noteq> e"
  note b = ilog2_bounds [OF assms(1)]
  show False
  proof (cases "ilog2 q < e")
    case True
    then have "pow2 (ilog2 q + 1) \<le> pow2 e" by (intro pow2_mono) simp
    with b(2) assms(2) show False by simp
  next
    case False
    with ne have "e + 1 \<le> ilog2 q" by simp
    then have "pow2 (e + 1) \<le> pow2 (ilog2 q)" by (rule pow2_mono)
    with b(1) assms(3) show False by simp
  qed
qed

lemma round_half_even_near:
  assumes "\<bar>x - of_int m\<bar> < 1 / 2"
  shows "round_half_even x = m"
proof -
  have lo: "of_int m - 1 / 2 < x" and hi: "x < of_int m + 1 / 2"
    using assms by linarith+
  show ?thesis
  proof (cases "of_int m \<le> x")
    case True
    then have f: "\<lfloor>x\<rfloor> = m" using hi by (intro floor_unique) auto
    show ?thesis using hi by (simp add: round_half_even_def f Let_def)
  next
    case False
    then have f: "\<lfloor>x\<rfloor> = m - 1" using lo by (intro floor_unique) auto
    show ?thesis using lo False by (simp add: round_half_even_def f Let_def)
  qed
qed



lemma ulp_eq:
  assumes "0 < q" "pow2 e \<le> q" "q < pow2 (e + 1)"
  shows "ulp q = pow2 (max e (- 1022) - 52)"
  using ilog2_unique [OF assms] by (simp add: ulp_def)

lemma ulp_pos: "0 < ulp q"
  by (simp add: ulp_def pow2_pos)



lemma round_half_even_nonneg: "0 \<le> x \<Longrightarrow> 0 \<le> round_half_even x"
  by (auto simp: round_half_even_def Let_def)

lemma rd_pos_nonneg: "0 \<le> q \<Longrightarrow> 0 \<le> rd_pos q"
  using ulp_pos [of q] by (simp add: rd_pos_def round_half_even_nonneg)

lemma rd_pos_eqI:
  assumes "0 < q" "pow2 e \<le> q" "q < pow2 (e + 1)" "- 1022 \<le> e"
    and near: "\<bar>q - of_int m * pow2 (e - 52)\<bar> < pow2 (e - 53)"
  shows "rd_pos q = of_int m * pow2 (e - 52)"
proof -
  have u: "ulp q = pow2 (e - 52)"
    using ulp_eq [OF assms(1-3)] assms(4) by (simp add: max_def)
  have up: "0 < pow2 (e - 52)" by (rule pow2_pos)
  have half: "pow2 (e - 53) = pow2 (e - 52) / 2"
    using pow2_add [of "e - 53" 1] by (simp add: pow2_def)
  have "q / pow2 (e - 52) - of_int m = (q - of_int m * pow2 (e - 52)) / pow2 (e - 52)"
    using up by (simp add: field_simps)
  then have "\<bar>q / pow2 (e - 52) - of_int m\<bar> = \<bar>q - of_int m * pow2 (e - 52)\<bar> / \<bar>pow2 (e - 52)\<bar>"
    by (simp only: abs_divide)
  also have "\<dots> = \<bar>q - of_int m * pow2 (e - 52)\<bar> / pow2 (e - 52)"
    using up by simp
  also have "\<dots> < 1 / 2"
    using near up by (simp add: half field_simps)
  finally have "round_half_even (q / pow2 (e - 52)) = m"
    by (rule round_half_even_near)
  then show ?thesis by (simp add: rd_pos_def u)
qed

lemma rd_certificate:
  assumes "0 < q" "pow2 e \<le> q" "q < pow2 (e + 1)" "- 1022 \<le> e" "e \<le> 1022"
    and near: "\<bar>q - of_int m * pow2 (e - 52)\<bar> < pow2 (e - 53)"
  shows "rd q = Fin (of_int m * pow2 (e - 52))"
proof -
  have r: "rd_pos q = of_int m * pow2 (e - 52)"
    using assms(1-4) near by (rule rd_pos_eqI)
  have "of_int m * pow2 (e - 52) < q + pow2 (e - 53)"
    using near by linarith
  also have "\<dots> < pow2 (e + 1) + pow2 (e + 1)"
    using assms(3) pow2_strict_mono [of "e - 53" "e + 1"] by simp
  also have "\<dots> = pow2 (e + 2)"
    using pow2_add [of "e + 1" 1] by (simp add: pow2_def add.commute)
  also have "\<dots> \<le> pow2 1024"
    using assms(5) by (intro pow2_mono) simp
  finally show ?thesis using assms(1) by (simp add: rd_def r)
qed

lemma rd_neg: "rd (- q) = fneg (rd q)"
  by (simp add: rd_def)

lemma rd_zero: "rd 0 = Fin 0"
  by (simp add: rd_def)

lemma round_half_even_tie: "round_half_even (of_int m + 1 / 2) = (if even m then m else m + 1)"
proof -
  have "\<lfloor>(of_int m :: rat) + 1 / 2\<rfloor> = m" by (intro floor_unique) simp_all
  then show ?thesis by (simp add: round_half_even_def Let_def)
qed

lemma rd_certificate_tie:
  assumes "0 < q" "pow2 e \<le> q" "q < pow2 (e + 1)" "- 1022 \<le> e" "e \<le> 1022"
    and tie: "q = (of_int m + 1 / 2) * pow2 (e - 52)"
  shows "rd q = Fin (of_int (if even m then m else m + 1) * pow2 (e - 52))"
proof -
  have u: "ulp q = pow2 (e - 52)"
    using ulp_eq [OF assms(1-3)] assms(4) by (simp add: max_def)
  have up: "0 < pow2 (e - 52)" by (rule pow2_pos)
  have "q / pow2 (e - 52) = of_int m + 1 / 2"
    using up by (simp add: tie)
  then have r: "rd_pos q = of_int (if even m then m else m + 1) * pow2 (e - 52)"
    by (simp add: rd_pos_def u round_half_even_tie)
  have "of_int (if even m then m else m + 1) * pow2 (e - 52) \<le> (of_int m + 1) * pow2 (e - 52)"
    using up by (intro mult_right_mono) auto
  also have "\<dots> = q + pow2 (e - 52) / 2"
    by (simp add: tie algebra_simps)
  also have "\<dots> < pow2 (e + 1) + pow2 (e + 1)"
    using assms(3) pow2_strict_mono [of "e - 52" "e + 1"] up by simp
  also have "\<dots> = pow2 (e + 2)"
    using pow2_add [of "e + 1" 1] by (simp add: pow2_def add.commute)
  also have "\<dots> \<le> pow2 1024"
    using assms(5) by (intro pow2_mono) simp
  finally show ?thesis using assms(1) by (simp add: rd_def r)
qed



section \<open>Evaluating the model on concrete values\<close>

lemmas char_class_defs =
  ord_def is_digit_def is_lower_def is_upper_def in_class_def is_space_def is_int_space_def
  is_hexdigit_def upper_def

lemmas regex_defs =
  re_hex_at_def re_rgb_at_def re_hsl_at_def re_alpha_at_def re_var_at_def
  p_digits_def p_number_def p_alpha_tail_def digits_close_def

lemma floor_rat_numeral:
  "\<lfloor>(numeral a :: rat) / numeral b\<rfloor> = numeral a div numeral b"
  using floor_divide_of_int_eq [of "numeral a" "numeral b", where ?'a = rat] by simp

lemma floor_rat_neg_numeral:
  "\<lfloor>- ((numeral a :: rat) / numeral b)\<rfloor> = - numeral a div numeral b"
  using floor_divide_of_int_eq [of "- numeral a" "numeral b", where ?'a = rat] by simp

lemma ceiling_rat_neg_numeral:
  "\<lceil>- ((numeral a :: rat) / numeral b)\<rceil> = - (numeral a div numeral b)"
  by (simp only: ceiling_minus floor_rat_numeral)

lemma rd_1: "rd (1) = Fin (1)"
  using rd_certificate [where q = "1" and e = "0" and m = 4503599627370496]
  by (simp add: pow2_def)

lemma rd_2: "rd (2) = Fin (2)"
  using rd_certificate [where q = "2" and e = "1" and m = 4503599627370496]
  by (simp add: pow2_def)

lemma rd_127: "rd (127) = Fin (127)"
  using rd_certificate [where q = "127" and e = "6" and m = 8936830510563328]
  by (simp add: pow2_def)

lemma rd_128: "rd (128) = Fin (128)"
  using rd_certificate [where q = "128" and e = "7" and m = 4503599627370496]
  by (simp add: pow2_def)

lemma rd_204: "rd (204) = Fin (204)"
  using rd_certificate [where q = "204" and e = "7" and m = 7177611906121728]
  by (simp add: pow2_def)

lemma rd_255: "rd (255) = Fin (255)"
  using rd_certificate [where q = "255" and e = "7" and m = 8972014882652160]
  by (simp add: pow2_def)

lemma rd_32385: "rd (32385) = Fin (32385)"
  using rd_certificate [where q = "32385" and e = "14" and m = 8901921016381440]
  by (simp add: pow2_def)

lemma rd_32640: "rd (32640) = Fin (32640)"
  using rd_certificate [where q = "32640" and e = "14" and m = 8972014882652160]
  by (simp add: pow2_def)

lemma rd_52020: "rd (52020) = Fin (52020)"
  using rd_certificate [where q = "52020" and e = "15" and m = 7149574359613440]
  by (simp add: pow2_def)

lemma rd_65025: "rd (65025) = Fin (65025)"
  using rd_certificate [where q = "65025" and e = "15" and m = 8936967949516800]
  by (simp add: pow2_def)

lemma rd_half: "rd (1 / 2) = Fin (1 / 2)"
  using rd_certificate [where q = "1 / 2" and e = "- 1" and m = 4503599627370496]
  by (simp add: pow2_def)

lemma rd_255_half: "rd (255 / 2) = Fin (255 / 2)"
  using rd_certificate [where q = "255 / 2" and e = "6" and m = 8972014882652160]
  by (simp add: pow2_def)

lemma rd_fifth: "rd (1 / 5) = Fin (3602879701896397 / 18014398509481984)"
  using rd_certificate [where q = "1 / 5" and e = "- 3" and m = 7205759403792794]
  by (simp add: pow2_def)

lemma rd_51: "rd (918734323983581235 / 18014398509481984) = Fin (51)"
  using rd_certificate [where q = "918734323983581235 / 18014398509481984" and e = "5" and m = 7177611906121728]
  by (simp add: pow2_def)

lemma rd_third: "rd (1 / 3) = Fin (6004799503160661 / 18014398509481984)"
  using rd_certificate [where q = "1 / 3" and e = "- 2" and m = 6004799503160661]
  by (simp add: pow2_def)

lemma rd_sixth: "rd (1 / 6) = Fin (6004799503160661 / 36028797018963968)"
  using rd_certificate [where q = "1 / 6" and e = "- 3" and m = 6004799503160661]
  by (simp add: pow2_def)

lemma rd_two_thirds: "rd (2 / 3) = Fin (6004799503160661 / 9007199254740992)"
  using rd_certificate [where q = "2 / 3" and e = "- 1" and m = 6004799503160661]
  by (simp add: pow2_def)

lemma rd_third_again: "rd (6004799503160661 / 18014398509481984) = Fin (6004799503160661 / 18014398509481984)"
  using rd_certificate [where q = "6004799503160661 / 18014398509481984" and e = "- 2" and m = 6004799503160661]
  by (simp add: pow2_def)

lemma rd_one_minus_third: "rd (12009599006321323 / 18014398509481984) = Fin (3002399751580331 / 4503599627370496)"
proof -
  have "rd (12009599006321323 / 18014398509481984) =
      Fin (of_int (if even (6004799503160661::int) then 6004799503160661 else 6004799503160661 + 1) * pow2 (- 1 - 52))"
  proof (rule rd_certificate_tie)
    show "(12009599006321323 / 18014398509481984 :: rat) = (of_int 6004799503160661 + 1 / 2) * pow2 (- 1 - 52)"
      by (simp add: pow2_def)
  qed (simp_all add: pow2_def)
  also have "\<dots> = Fin (3002399751580331 / 4503599627370496)"
    by (simp add: pow2_def)
  finally show ?thesis .
qed

lemma rd_alpha_decimal: "rd (12549019607843137 / 100000000000000000) = Fin (282578800148737 / 2251799813685248)"
  using rd_certificate [where q = "12549019607843137 / 100000000000000000" and e = "- 3" and m = 4521260802379792]
  by (simp add: pow2_def)

lemma rd_alpha_product: "rd (72057594037927935 / 2251799813685248) = Fin (32)"
  using rd_certificate [where q = "72057594037927935 / 2251799813685248" and e = "4" and m = 9007199254740992]
  by (simp add: pow2_def)

lemmas rd_values =
  rd_zero rd_1 rd_2 rd_127 rd_128 rd_204 rd_255 rd_32385 rd_32640 rd_52020 rd_65025 rd_half rd_255_half rd_fifth rd_51 rd_third rd_sixth rd_two_thirds rd_third_again rd_one_minus_third rd_alpha_decimal rd_alpha_product

lemma floor_rat_one_numeral:
  "\<lfloor>(1 :: rat) / numeral b\<rfloor> = 1 div numeral b"
  using floor_divide_of_int_eq [of 1 "numeral b", where ?'a = rat] by simp

lemmas format_defs = format_02x_def hex_nat.simps hexdigit_def

lemma format_values:
  "format_02x 0 = ''00''" "format_02x 1 = ''01''" "format_02x 2 = ''02''" "format_02x 3 = ''03''"
  "format_02x 32 = ''20''" "format_02x 51 = ''33''" "format_02x 127 = ''7f''" "format_02x 255 = ''ff''"
  "format_02x 32385 = ''7e81''" "format_02x 32640 = ''7f80''" "format_02x 52020 = ''cb34''"
  "format_02x 65025 = ''fe01''"
  by (simp_all add: format_defs)

lemma int_of_digits_values:
  "int_of_digits ''0'' = 0" "int_of_digits ''1'' = 1" "int_of_digits ''2'' = 2" "int_of_digits ''3'' = 3"
  "int_of_digits ''50'' = 50" "int_of_digits ''100'' = 100" "int_of_digits ''255'' = 255"
  by (simp_all add: int_of_digits_def digit_val_def char_class_defs)

lemma int16_values:
  "int16 ''7f'' = Inr 127" "int16 ''80'' = Inr 128" "int16 ''cc'' = Inr 204" "int16 ''ff'' = Inr 255"
  "int16 ''33'' = Inr 51"
  by (simp_all add: int16_def digit_val_def char_class_defs)

lemmas float_of_str_defs =
  float_of_str_def is_decimal_def decimal_value_def int_of_digits_def digit_val_def char_class_defs

lemma float_of_str_values:
  "float_of_str ''0'' = Inr (Fin 0)"
  "float_of_str ''1'' = Inr (Fin 1)"
  "float_of_str ''0.5'' = Inr (Fin (1 / 2))"
  "float_of_str ''0.2'' = Inr (Fin (3602879701896397 / 18014398509481984))"
  "float_of_str ''0.12549019607843137'' = Inr (Fin (282578800148737 / 2251799813685248))"
  by (simp_all add: float_of_str_defs rd_values)

lemmas alpha_to_hex_defs =
  alpha_to_hex_def ebind_def float_of_int_def finite_or_overflow_def floor_rat_numeral

lemma alpha_to_hex_values:
  "alpha_to_hex (AStr ''0.5'') = Inr ''7f''"
  "alpha_to_hex (AStr ''1'') = Inr ''ff''"
  "alpha_to_hex (AFloat (Fin (3602879701896397 / 18014398509481984))) = Inr ''33''"
  "alpha_to_hex (AInt 127) = Inr ''7e81''"
  "alpha_to_hex (AInt 128) = Inr ''7f80''"
  "alpha_to_hex (AInt 204) = Inr ''cb34''"
  "alpha_to_hex (AInt 255) = Inr ''fe01''"
  by (simp_all add: alpha_to_hex_defs float_of_str_values rd_values format_values)



lemmas match_defs =
  match_hex_def match_rgb_def match_hsl_def get_alpha_adjuster_def rgb_to_hex_def ebind_def

lemmas resolve_defs =
  try_match_color_def get_alpha_hex_def get_alpha_adjuster_def hexa_to_hex_def ebind_def falsy_def

subsection \<open>\<^verbatim>\<open>rgb(255, 0, 0)\<close>\<close>

lemma search_rgb_red:
  "re_search re_hex_at ''rgb(255, 0, 0)'' = None"
  "re_search re_rgb_at ''rgb(255, 0, 0)'' = Some (''255'', ''0'', ''0'', None)"
  "re_search re_alpha_at ''rgb(255, 0, 0)'' = None"
  by (simp_all add: regex_defs char_class_defs)

lemma resolve_rgb_red: "try_match_color ''rgb(255, 0, 0)'' = Inr ''#ff0000''"
proof -
  have "match_hex ''rgb(255, 0, 0)'' = Inr None"
    by (simp add: match_defs search_rgb_red del: re_search.simps)
  moreover have "match_rgb ''rgb(255, 0, 0)'' = Inr (Some ''#ff0000'')"
    by (simp add: match_defs search_rgb_red int_of_digits_values format_values del: re_search.simps)
  ultimately show ?thesis
    by (simp add: resolve_defs search_rgb_red del: re_search.simps)
qed

subsection \<open>\<^verbatim>\<open>rgb(255, 0, 0, 0.5)\<close>\<close>

lemma search_rgb_red_half:
  "re_search re_hex_at ''rgb(255, 0, 0, 0.5)'' = None"
  "re_search re_rgb_at ''rgb(255, 0, 0, 0.5)'' = Some (''255'', ''0'', ''0'', Some ''0.5'')"
  "re_search re_alpha_at ''rgb(255, 0, 0, 0.5)'' = None"
  by (simp_all add: regex_defs char_class_defs)

lemma resolve_rgb_red_half: "try_match_color ''rgb(255, 0, 0, 0.5)'' = Inr ''#ff00007e81''"
proof -
  have "match_hex ''rgb(255, 0, 0, 0.5)'' = Inr None"
    by (simp add: match_defs search_rgb_red_half del: re_search.simps)
  moreover have "match_rgb ''rgb(255, 0, 0, 0.5)'' = Inr (Some ''#ff00007f'')"
    by (simp add: match_defs search_rgb_red_half int_of_digits_values format_values
        alpha_to_hex_values del: re_search.simps)
  ultimately show ?thesis
    by (simp add: resolve_defs search_rgb_red_half int16_values alpha_to_hex_values
        del: re_search.simps)
qed

subsection \<open>\<^verbatim>\<open>#112233\<close> and \<^verbatim>\<open>#112233cc\<close>\<close>

lemma search_hex_plain:
  "re_search re_hex_at ''#112233'' = Some (''#112233'', None)"
  "re_search re_alpha_at ''#112233'' = None"
  by (simp_all add: regex_defs char_class_defs)

lemma resolve_hex_plain: "try_match_color ''#112233'' = Inr ''#112233''"
proof -
  have "match_hex ''#112233'' = Inr (Some ''#112233'')"
    by (simp add: match_defs search_hex_plain del: re_search.simps)
  then show ?thesis
    by (simp add: resolve_defs search_hex_plain del: re_search.simps)
qed

lemma search_hex_alpha:
  "re_search re_hex_at ''#112233cc'' = Some (''#112233'', Some ''cc'')"
  "re_search re_alpha_at ''#112233cc'' = None"
  by (simp_all add: regex_defs char_class_defs)

lemma resolve_hex_alpha: "try_match_color ''#112233cc'' = Inr ''#112233cb34''"
proof -
  have "match_hex ''#112233cc'' = Inr (Some ''#112233cc'')"
    by (simp add: match_defs search_hex_alpha del: re_search.simps)
  then show ?thesis
    by (simp add: resolve_defs search_hex_alpha int16_values alpha_to_hex_values
        del: re_search.simps)
qed

lemma search_hex_alpha_80:
  "re_search re_hex_at ''#abcdef80'' = Some (''#abcdef'', Some ''80'')"
  "re_search re_alpha_at ''#abcdef80'' = None"
  by (simp_all add: regex_defs char_class_defs)

lemma resolve_hex_alpha_80: "try_match_color ''#abcdef80'' = Inr ''#abcdef7f80''"
proof -
  have "match_hex ''#abcdef80'' = Inr (Some ''#abcdef80'')"
    by (simp add: match_defs search_hex_alpha_80 del: re_search.simps)
  then show ?thesis
    by (simp add: resolve_defs search_hex_alpha_80 int16_values alpha_to_hex_values
        del: re_search.simps)
qed

subsection \<open>\<^verbatim>\<open>#112233cc\<close> with an adjuster\<close>

lemma search_hex_adjust_zero:
  "re_search re_hex_at ''#112233cc alpha(0)'' = Some (''#112233'', Some ''cc'')"
  "re_search re_alpha_at ''#112233cc alpha(0)'' = Some ''0''"
  by (simp_all add: regex_defs char_class_defs)

lemma resolve_hex_adjust_zero: "try_match_color ''#112233cc alpha(0)'' = Inr ''#112233cc''"
proof -
  have "match_hex ''#112233cc alpha(0)'' = Inr (Some ''#112233cc'')"
    by (simp add: match_defs search_hex_adjust_zero float_of_str_values del: re_search.simps)
  then show ?thesis
    by (simp add: resolve_defs search_hex_adjust_zero int16_values float_of_str_values
        del: re_search.simps)
qed

lemma search_hex_adjust_fifth:
  "re_search re_hex_at ''#112233cc alpha(0.2)'' = Some (''#112233'', Some ''cc'')"
  "re_search re_alpha_at ''#112233cc alpha(0.2)'' = Some ''0.2''"
  by (simp_all add: regex_defs char_class_defs)

lemma resolve_hex_adjust_fifth: "try_match_color ''#112233cc alpha(0.2)'' = Inr ''#11223333''"
proof -
  have "match_hex ''#112233cc alpha(0.2)'' = Inr (Some ''#11223333'')"
    by (simp add: match_defs search_hex_adjust_fifth float_of_str_values alpha_to_hex_values
        del: re_search.simps)
  then show ?thesis
    by (simp add: resolve_defs search_hex_adjust_fifth int16_values float_of_str_values
        alpha_to_hex_values del: re_search.simps)
qed

subsection \<open>\<^verbatim>\<open>rgb(1, 2, 3, 1)\<close>\<close>

lemma search_rgb_opaque:
  "re_search re_hex_at ''rgb(1, 2, 3, 1)'' = None"
  "re_search re_rgb_at ''rgb(1, 2, 3, 1)'' = Some (''1'', ''2'', ''3'', Some ''1'')"
  "re_search re_alpha_at ''rgb(1, 2, 3, 1)'' = None"
  by (simp_all add: regex_defs char_class_defs)

lemma resolve_rgb_opaque: "try_match_color ''rgb(1, 2, 3, 1)'' = Inr ''#010203fe01''"
proof -
  have "match_hex ''rgb(1, 2, 3, 1)'' = Inr None"
    by (simp add: match_defs search_rgb_opaque del: re_search.simps)
  moreover have "match_rgb ''rgb(1, 2, 3, 1)'' = Inr (Some ''#010203ff'')"
    by (simp add: match_defs search_rgb_opaque int_of_digits_values format_values
        alpha_to_hex_values del: re_search.simps)
  ultimately show ?thesis
    by (simp add: resolve_defs search_rgb_opaque int16_values alpha_to_hex_values
        del: re_search.simps)
qed


subsection \<open>The \<^verbatim>\<open>hsl\<close> form\<close>

lemma truediv_values:
  "truediv 0 360 = Inr (Fin 0)" "truediv 0 100 = Inr (Fin 0)"
  "truediv 50 100 = Inr (Fin (1 / 2))" "truediv 100 100 = Inr (Fin 1)"
  by (simp_all add: truediv_def finite_or_overflow_def rd_values)

lemma hue_constants:
  "ONE_THIRD = Fin (6004799503160661 / 18014398509481984)"
  "ONE_SIXTH = Fin (6004799503160661 / 36028797018963968)"
  "TWO_THIRD = Fin (6004799503160661 / 9007199254740992)"
  by (simp_all add: ONE_THIRD_def ONE_SIXTH_def TWO_THIRD_def rd_values)

lemma hls_to_rgb_grey: "hls_to_rgb (Fin 0) (Fin (1 / 2)) (Fin 0) = (Fin (1 / 2), Fin (1 / 2), Fin (1 / 2))"
  by (simp add: hls_to_rgb_def)

lemma hls_to_rgb_white: "hls_to_rgb (Fin 0) (Fin 1) (Fin 0) = (Fin 1, Fin 1, Fin 1)"
  by (simp add: hls_to_rgb_def)

lemma v_hue_red:
  "v_hue (Fin 0) (Fin 1) (fadd (Fin 0) ONE_THIRD) = Fin 1"
  "v_hue (Fin 0) (Fin 1) (Fin 0) = Fin 0"
  "v_hue (Fin 0) (Fin 1) (fsub (Fin 0) ONE_THIRD) = Fin 0"
  by (simp_all add: v_hue_def fsub_def hue_constants rd_values rd_neg
      floor_rat_numeral floor_rat_neg_numeral ceiling_rat_neg_numeral)

lemma hls_to_rgb_red: "hls_to_rgb (Fin 0) (Fin (1 / 2)) (Fin 1) = (Fin 1, Fin 0, Fin 0)"
proof -
  have m2: "fmul (Fin (1 / 2)) (fadd (Fin 1) (Fin 1)) = Fin 1"
    by (simp add: rd_values)
  have m1: "fsub (fmul (Fin 2) (Fin (1 / 2))) (Fin 1) = Fin 0"
    by (simp add: fsub_def rd_values)
  show ?thesis
    by (simp add: hls_to_rgb_def Let_def m2 m1 v_hue_red del: fmul.simps fadd.simps)
qed

lemma search_hsl_grey:
  "re_search re_hex_at ''hsl(0, 0%, 50%)'' = None"
  "re_search re_rgb_at ''hsl(0, 0%, 50%)'' = None"
  "re_search re_hsl_at ''hsl(0, 0%, 50%)'' = Some (''0'', ''0'', ''50'', None)"
  "re_search re_alpha_at ''hsl(0, 0%, 50%)'' = None"
  by (simp_all add: regex_defs char_class_defs)

lemma resolve_hsl_grey: "try_match_color ''hsl(0, 0%, 50%)'' = Inr ''#000000''"
proof -
  have "match_hex ''hsl(0, 0%, 50%)'' = Inr None"
    by (simp add: match_defs search_hsl_grey del: re_search.simps)
  moreover have "match_rgb ''hsl(0, 0%, 50%)'' = Inr None"
    by (simp add: match_defs search_hsl_grey del: re_search.simps)
  moreover have "match_hsl ''hsl(0, 0%, 50%)'' = Inr (Some ''#000000'')"
    by (simp add: match_defs search_hsl_grey int_of_digits_values truediv_values
        hls_to_rgb_grey floor_rat_one_numeral format_values del: re_search.simps)
  ultimately show ?thesis
    by (simp add: resolve_defs search_hsl_grey del: re_search.simps)
qed

lemma search_hsl_red:
  "re_search re_hex_at ''hsl(0, 100%, 50%)'' = None"
  "re_search re_rgb_at ''hsl(0, 100%, 50%)'' = None"
  "re_search re_hsl_at ''hsl(0, 100%, 50%)'' = Some (''0'', ''100'', ''50'', None)"
  "re_search re_alpha_at ''hsl(0, 100%, 50%)'' = None"
  by (simp_all add: regex_defs char_class_defs)

lemma resolve_hsl_red: "try_match_color ''hsl(0, 100%, 50%)'' = Inr ''#ff0000''"
proof -
  have "match_hex ''hsl(0, 100%, 50%)'' = Inr None"
    by (simp add: match_defs search_hsl_red del: re_search.simps)
  moreover have "match_rgb ''hsl(0, 100%, 50%)'' = Inr None"
    by (simp add: match_defs search_hsl_red del: re_search.simps)
  moreover have "match_hsl ''hsl(0, 100%, 50%)'' = Inr (Some ''#ff0000'')"
    by (simp add: match_defs search_hsl_red int_of_digits_values truediv_values
        hls_to_rgb_red format_values del: re_search.simps)
  ultimately show ?thesis
    by (simp add: resolve_defs search_hsl_red del: re_search.simps)
qed

lemma search_hsl_white_half:
  "re_search re_hex_at ''hsl(0, 0%, 100%, 0.5)'' = None"
  "re_search re_rgb_at ''hsl(0, 0%, 100%, 0.5)'' = None"
  "re_search re_hsl_at ''hsl(0, 0%, 100%, 0.5)'' = Some (''0'', ''0'', ''100'', Some ''0.5'')"
  "re_search re_alpha_at ''hsl(0, 0%, 100%, 0.5)'' = None"
  by (simp_all add: regex_defs char_class_defs)

lemma resolve_hsl_white_half: "try_match_color ''hsl(0, 0%, 100%, 0.5)'' = Inr ''#ffffff7e81''"
proof -
  have "match_hex ''hsl(0, 0%, 100%, 0.5)'' = Inr None"
    by (simp add: match_defs search_hsl_white_half del: re_search.simps)
  moreover have "match_rgb ''hsl(0, 0%, 100%, 0.5)'' = Inr None"
    by (simp add: match_defs search_hsl_white_half del: re_search.simps)
  moreover have "match_hsl ''hsl(0, 0%, 100%, 0.5)'' = Inr (Some ''#ffffff7f'')"
    by (simp add: match_defs search_hsl_white_half int_of_digits_values truediv_values
        hls_to_rgb_white format_values alpha_to_hex_values del: re_search.simps)
  ultimately show ?thesis
    by (simp add: resolve_defs search_hsl_white_half int16_values alpha_to_hex_values
        del: re_search.simps)
qed


subsection \<open>Variable references\<close>

lemma search_var_missing:
  "re_search re_hex_at ''var(missing)'' = None"
  "re_search re_rgb_at ''var(missing)'' = None"
  "re_search re_hsl_at ''var(missing)'' = None"
  "re_search re_var_at ''var(missing)'' = Some ''var(missing)''"
  by (simp_all add: regex_defs char_class_defs)

lemma resolve_var_missing: "try_match_color ''var(missing)'' = Inr ''var(missing)''"
  by (simp add: try_match_color_def match_defs falsy_def search_var_missing del: re_search.simps)

lemma parse_color_declared:
  "parse_color ''var(accent)'' (Some [(''var(accent)'', ''#112233'')]) = Inr ''#112233''"
  by (simp add: parse_color_def resolve_hex_plain)

lemma parse_color_undeclared:
  "parse_color ''var(missing)'' (Some [(''var(accent)'', ''#112233'')]) = Inr ''var(missing)''"
  by (simp add: parse_color_def search_var_missing resolve_var_missing del: re_search.simps)

lemma parse_color_no_table: "parse_color ''var(missing)'' None = Inl AttributeError"
  by (simp add: parse_color_def search_var_missing del: re_search.simps)

lemma parse_no_table:
  "parse \<lparr>src_name = Some ''T'', src_author = Some ''A'', src_variables = None,
      src_globals = Some [(''foreground'', ''var(missing)'')], src_rules = Some []\<rparr>
   = Inl AttributeError"
  by (simp add: parse_def parse_settings_def parse_color_no_table ebind_def)

section \<open>Facts about the two substitutions of \<^verbatim>\<open>parse_scope\<close>\<close>

lemma space_not_special:
  assumes "is_space c"
  shows "c \<noteq> CHR ''_''" "c \<noteq> CHR ''-''" "c \<noteq> CHR ''|''" "c \<noteq> CHR ''(''" "c \<noteq> CHR '')''"
  using assms by (auto simp: is_space_def ord_def Let_def)

lemma convert_name_plain: "CHR ''_'' \<notin> set s \<Longrightarrow> convert_name s = s"
  by (induction s rule: convert_name.induct) auto

lemma separator_free_Cons:
  assumes "\<not> is_space x"
  shows "separator_free (x # s) = separator_free s"
proof (cases s)
  case Nil
  then show ?thesis by simp
next
  case (Cons b t)
  then show ?thesis using assms by (cases t) simp_all
qed

lemma separator_free_short: "length t \<le> 2 \<Longrightarrow> separator_free t"
proof (cases t)
  case Nil
  then show ?thesis by simp
next
  case (Cons a t1)
  assume "length t \<le> 2"
  with Cons show ?thesis by (cases t1; cases "tl t1") auto
qed

lemma separator_free_word:
  assumes "list_all (\<lambda>c. \<not> is_space c) w" "length t \<le> 2"
  shows "separator_free (w @ t)"
  using assms(1)
proof (induction w)
  case Nil
  show ?case using assms(2) by (simp add: separator_free_short)
next
  case (Cons x w)
  then show ?case by (simp add: separator_free_Cons)
qed

lemma sub_separator_free: "separator_free s \<Longrightarrow> sub_separator s = s"
  by (induction s rule: sub_separator.induct) auto

lemma sub_separator_leftmost:
  assumes "is_space a" "b = CHR ''-'' \<or> b = CHR ''|''" "is_space c"
  shows "separator_free (u @ [a]) \<Longrightarrow> sub_separator (u @ a # b # c # v) = u @ '', '' @ sub_separator v"
proof (induction u)
  case Nil
  show ?case using assms by simp
next
  case (Cons x u)
  note a = space_not_special(2,3) [OF assms(1)]
  show ?case
  proof (cases u)
    case Nil
    then show ?thesis using assms a by simp
  next
    case u: (Cons y u1)
    show ?thesis
    proof (cases u1)
      case Nil
      with u Cons.prems have "\<not> (is_space x \<and> (y = CHR ''-'' \<or> y = CHR ''|'') \<and> is_space a)"
        by simp
      moreover have "separator_free ([y] @ [a])" by simp
      then have "sub_separator ([y] @ a # b # c # v) = [y] @ '', '' @ sub_separator v"
        using Cons.IH u Nil by simp
      ultimately show ?thesis using u Nil by auto
    next
      case u1: (Cons z u2)
      with u Cons.prems
      have "\<not> (is_space x \<and> (y = CHR ''-'' \<or> y = CHR ''|'') \<and> is_space z)"
        and "separator_free (u @ [a])"
        by simp_all
      with Cons.IH u u1 show ?thesis by auto
    qed
  qed
qed

lemma sub_paren_plain:
  "CHR ''('' \<notin> set s \<Longrightarrow> CHR '')'' \<notin> set s \<Longrightarrow> sub_paren s = s"
proof (induction s rule: sub_paren.induct)
  case 1
  show ?case by simp
next
  case (2 c cs)
  note hyps = this
  show ?case
  proof (cases "dropWhile is_space (c # cs)")
    case Nil
    with hyps show ?thesis by simp
  next
    case (Cons p r)
    then have "p \<in> set (c # cs)"
      by (metis list.set_intros(1) set_dropWhileD)
    with hyps(4,5) have "p \<noteq> CHR ''(''" "p \<noteq> CHR '')''" by auto
    with hyps Cons show ?thesis by simp
  qed
qed

lemma dropWhile_spaces:
  assumes "list_all is_space ws" "v = [] \<or> \<not> is_space (hd v)"
  shows "dropWhile is_space (ws @ v) = v"
proof -
  have "dropWhile is_space (ws @ v) = dropWhile is_space v"
    using assms(1) by (induction ws) auto
  also have "\<dots> = v" using assms(2) by (cases v) auto
  finally show ?thesis .
qed

lemma sub_paren_at:
  assumes "CHR ''('' \<notin> set u" "CHR '')'' \<notin> set u" "u = [] \<or> \<not> is_space (last u)"
    and "list_all is_space ws1" "p = CHR ''('' \<or> p = CHR '')''"
  shows "sub_paren (u @ ws1 @ p # r) = u @ '' '' @ sub_paren (dropWhile is_space r)"
  using assms(1-3)
proof (induction u)
  case Nil
  have p: "\<not> is_space p" using assms(5) space_not_special(4,5) by blast
  have d: "dropWhile is_space (ws1 @ p # r) = p # r"
    using dropWhile_spaces [OF assms(4), of "p # r"] p by simp
  show ?case
  proof (cases ws1)
    case Nil
    then show ?thesis using p assms(5) by auto
  next
    case (Cons w ws)
    then show ?thesis using d assms(5) by auto
  qed
next
  case (Cons x u)
  from Cons.prems(3) have ns: "\<not> is_space (last (x # u))" by simp
  have "last (x # u) \<in> set (x # u)" by (rule last_in_set) simp
  with ns have ex: "\<exists>y\<in>set (x # u). \<not> is_space y" by blast
  then obtain y where y: "y \<in> set (x # u)" "\<not> is_space y" by blast
  have app: "dropWhile is_space ((x # u) @ ws1 @ p # r) = dropWhile is_space (x # u) @ ws1 @ p # r"
    using y by (rule dropWhile_append1)
  have ne: "dropWhile is_space (x # u) \<noteq> []"
    using ex by (simp only: dropWhile_eq_Nil_conv) blast
  then obtain q t where qt: "dropWhile is_space (x # u) = q # t" by (cases "dropWhile is_space (x # u)") auto
  then have "q \<in> set (x # u)" by (metis list.set_intros(1) set_dropWhileD)
  with Cons.prems have q: "q \<noteq> CHR ''(''" "q \<noteq> CHR '')''" by auto
  have step: "sub_paren (x # u @ ws1 @ p # r) = x # sub_paren (u @ ws1 @ p # r)"
    using app qt q by simp
  have "u = [] \<or> \<not> is_space (last u)" using ns by (cases u) auto
  with Cons.IH Cons.prems have "sub_paren (u @ ws1 @ p # r) = u @ '' '' @ sub_paren (dropWhile is_space r)"
    by simp
  with step show ?case by simp
qed

lemma scope_word_facts:
  assumes "scope_word w"
  shows "list_all (\<lambda>c. \<not> is_space c) w" "CHR ''_'' \<notin> set w" "CHR ''('' \<notin> set w" "CHR '')'' \<notin> set w"
  using assms by (auto simp: scope_word_def list_all_iff)

lemma is_separator_cases:
  assumes "is_separator m"
  obtains a b c where "m = [a, b, c]" "is_space a" "b = CHR ''-'' \<or> b = CHR ''|''" "is_space c"
proof -
  from assms have "length m = 3" by (simp add: is_separator_def)
  then obtain a b c where m: "m = [a, b, c]"
    by (auto simp: numeral_eq_Suc length_Suc_conv)
  with assms that show ?thesis by (simp add: is_separator_def)
qed

lemma sub_separator_words:
  assumes "\<forall>(m, w) \<in> set segs. is_separator m \<and> scope_word w"
  shows "scope_word w0 \<Longrightarrow>
    sub_separator (w0 @ concat (map (\<lambda>(m, w). m @ w) segs))
      = w0 @ concat (map (\<lambda>(m, w). '', '' @ w) segs)"
  using assms
proof (induction segs arbitrary: w0)
  case Nil
  have "separator_free (w0 @ [])"
    using scope_word_facts(1) [OF Nil.prems(1)] by (intro separator_free_word) simp_all
  then show ?case by (simp add: sub_separator_free)
next
  case (Cons seg segs)
  obtain m w where seg: "seg = (m, w)" by (cases seg)
  from Cons.prems(2) seg have m: "is_separator m" and w: "scope_word w"
    and rest: "\<forall>(m, w) \<in> set segs. is_separator m \<and> scope_word w"
    by auto
  from m obtain a b c where abc: "m = [a, b, c]" "is_space a" "b = CHR ''-'' \<or> b = CHR ''|''" "is_space c"
    by (rule is_separator_cases)
  have free: "separator_free (w0 @ [a])"
    using scope_word_facts(1) [OF Cons.prems(1)] by (intro separator_free_word) simp_all
  have "sub_separator (w0 @ a # b # c # (w @ concat (map (\<lambda>(m, w). m @ w) segs)))
      = w0 @ '', '' @ sub_separator (w @ concat (map (\<lambda>(m, w). m @ w) segs))"
    using abc(2-4) free by (rule sub_separator_leftmost)
  also have "sub_separator (w @ concat (map (\<lambda>(m, w). m @ w) segs))
      = w @ concat (map (\<lambda>(m, w). '', '' @ w) segs)"
    using w rest by (rule Cons.IH)
  finally show ?case by (simp add: seg abc(1))
qed

lemma parse_scope_words:
  assumes "scope_word w0" "\<forall>(m, w) \<in> set segs. is_separator m \<and> scope_word w"
  shows "parse_scope (w0 @ concat (map (\<lambda>(m, w). m @ w) segs))
      = w0 @ concat (map (\<lambda>(m, w). '', '' @ w) segs)"
proof -
  let ?s = "w0 @ concat (map (\<lambda>(m, w). m @ w) segs)"
  let ?r = "w0 @ concat (map (\<lambda>(m, w). '', '' @ w) segs)"
  have "CHR ''_'' \<notin> set ?s"
  proof -
    have "CHR ''_'' \<notin> set (m @ w)" if "(m, w) \<in> set segs" for m w
    proof -
      from that assms(2) have m: "is_separator m" and w: "scope_word w" by auto
      from m obtain a b c where "m = [a, b, c]" "is_space a" "b = CHR ''-'' \<or> b = CHR ''|''" "is_space c"
        by (rule is_separator_cases)
      then show ?thesis
        using scope_word_facts(2) [OF w] space_not_special(1) by auto
    qed
    then show ?thesis using scope_word_facts(2) [OF assms(1)] by auto
  qed
  then have "convert_name ?s = ?s" by (rule convert_name_plain)
  moreover have "sub_separator ?s = ?r"
    using assms(2,1) by (rule sub_separator_words)
  moreover have "sub_paren ?r = ?r"
  proof (rule sub_paren_plain)
    have "CHR ''('' \<notin> set w \<and> CHR '')'' \<notin> set w" if "(m, w) \<in> set segs" for m w
      using that assms(2) scope_word_facts(3,4) by blast
    then show "CHR ''('' \<notin> set ?r" "CHR '')'' \<notin> set ?r"
      using scope_word_facts(3,4) [OF assms(1)] by auto
  qed
  ultimately show ?thesis by (simp add: parse_scope_def)
qed

section \<open>Facts about the alpha byte\<close>




lemma decimal_value_nonneg: "0 \<le> decimal_value s"
  by (simp add: decimal_value_def Let_def)

section \<open>Facts about hexadecimal text, canonical literals and adjusters\<close>

lemma hexdigit_is_hexdigit: "k < 16 \<Longrightarrow> is_hexdigit (hexdigit k)"
proof -
  assume k: "k < 16"
  have "list_all is_hexdigit ''0123456789abcdef''"
    by (simp add: char_class_defs)
  with k show ?thesis
    by (simp add: hexdigit_def list_all_length)
qed

lemma hex_nat_hexdigits: "list_all is_hexdigit (hex_nat n) \<and> hex_nat n \<noteq> []"
proof (induction n rule: hex_nat.induct)
  case (1 n)
  show ?case
  proof (cases "n < 16")
    case True
    then show ?thesis by (simp add: hex_nat.simps [of n] hexdigit_is_hexdigit)
  next
    case False
    with 1 show ?thesis by (simp add: hex_nat.simps [of n] hexdigit_is_hexdigit)
  qed
qed

lemma format_02x_hexdigits:
  assumes "0 \<le> n"
  shows "list_all is_hexdigit (format_02x n)" and "format_02x n \<noteq> []"
proof -
  have z: "is_hexdigit CHR ''0''" by (simp add: char_class_defs)
  show "list_all is_hexdigit (format_02x n)"
    using assms hex_nat_hexdigits [of "nat n"] z
    by (auto simp: format_02x_def list_all_iff)
  show "format_02x n \<noteq> []"
    using assms hex_nat_hexdigits [of "nat n"] by (simp add: format_02x_def)
qed

lemma hexdigit_not_special:
  assumes "is_hexdigit c"
  shows "\<not> is_int_space c" "c \<noteq> CHR ''-''" "c \<noteq> CHR ''+''" "c \<noteq> CHR ''_''" "c \<noteq> CHR ''x''" "c \<noteq> CHR ''X''"
    "c \<noteq> CHR ''l''" "c \<noteq> CHR ''#''" "in_class c"
  using assms by (auto simp: char_class_defs Let_def)

lemma hex_body_hexdigits: "list_all is_hexdigit xs \<Longrightarrow> hex_body b xs = (b \<or> xs \<noteq> [])"
  by (induction xs arbitrary: b) (auto simp: hexdigit_not_special)

lemma int16_hexdigits:
  assumes "xs \<noteq> []" "list_all is_hexdigit xs"
  shows "int16 xs = Inr (int (foldl (\<lambda>acc c. 16 * acc + digit_val c) 0 xs))"
proof -
  obtain c cs where xs: "xs = c # cs" using assms(1) by (cases xs) auto
  have c: "is_hexdigit c" using assms(2) xs by simp
  have l: "is_hexdigit (last xs)" using assms by (simp add: list_all_iff)
  have d1: "dropWhile is_int_space xs = xs"
    using c hexdigit_not_special(1) by (simp add: xs)
  have "dropWhile is_int_space (rev xs) = rev xs"
    using l assms(1) hexdigit_not_special(1) [OF l] by (cases "rev xs") (auto simp: last_rev hd_rev)
  then have t: "rev (dropWhile is_int_space (rev (dropWhile is_int_space xs))) = xs"
    by (simp add: d1)
  have sign: "take 1 xs \<noteq> ''-''" "take 1 xs \<noteq> ''+''"
    using hexdigit_not_special(2,3) [OF c] by (simp_all add: xs)
  have prefix: "take 2 xs \<noteq> ''0x''" "take 2 xs \<noteq> ''0X''"
  proof -
    show "take 2 xs \<noteq> ''0x''"
    proof (cases cs)
      case Nil
      then show ?thesis by (simp add: xs)
    next
      case (Cons d ds)
      then have "is_hexdigit d" using assms(2) xs by simp
      from hexdigit_not_special(5) [OF this] show ?thesis by (simp add: xs Cons)
    qed
    show "take 2 xs \<noteq> ''0X''"
    proof (cases cs)
      case Nil
      then show ?thesis by (simp add: xs)
    next
      case (Cons d ds)
      then have "is_hexdigit d" using assms(2) xs by simp
      from hexdigit_not_special(6) [OF this] show ?thesis by (simp add: xs Cons)
    qed
  qed
  have body: "hex_body False xs" using assms by (simp add: hex_body_hexdigits)
  have filt: "filter is_hexdigit xs = xs" using assms(2) by (simp add: list_all_iff)
  show ?thesis
    unfolding int16_def t using sign prefix body filt by (simp add: Let_def)
qed


lemma rd_int_exact:
  assumes "0 \<le> n" "n < 2 ^ 53"
  shows "rd (of_int n) = Fin (of_int n)"
proof (cases "n = 0")
  case True
  then show ?thesis by (simp add: rd_zero)
next
  case False
  define q :: rat where "q = of_int n"
  define e where "e = ilog2 q"
  have q: "0 < q" "1 \<le> q" using assms(1) False by (simp_all add: q_def)
  have q53: "q < pow2 53"
  proof -
    have "(of_int n :: rat) < of_int (2 ^ 53)" using assms(2) by (simp only: of_int_less_iff)
    then show ?thesis by (simp add: q_def pow2_def)
  qed
  note b = ilog2_bounds [OF q(1), folded e_def]
  have e0: "0 \<le> e"
  proof (rule ccontr)
    assume "\<not> 0 \<le> e"
    then have "pow2 (e + 1) \<le> pow2 0" by (intro pow2_mono) simp
    with b(2) q(2) show False by (simp add: pow2_def)
  qed
  have e52: "e \<le> 52"
  proof (rule ccontr)
    assume "\<not> e \<le> 52"
    then have "pow2 53 \<le> pow2 e" by (intro pow2_mono) simp
    with b(1) q53 show False by simp
  qed
  define m where "m = n * 2 ^ nat (52 - e)"
  have "(of_int m :: rat) = q * pow2 (52 - e)"
    using e52 by (simp add: m_def q_def pow2_nat)
  then have "of_int m * pow2 (e - 52) = q * (pow2 (52 - e) * pow2 (e - 52))"
    by (simp add: mult.assoc)
  also have "pow2 (52 - e) * pow2 (e - 52) = 1"
    using pow2_add [of "52 - e" "e - 52"] by (simp add: pow2_def)
  finally have m: "of_int m * pow2 (e - 52) = q" by simp
  have "rd q = Fin (of_int m * pow2 (e - 52))"
    using q(1) b e0 e52 pow2_pos [of "e - 53"] by (intro rd_certificate) (simp_all add: m)
  then show ?thesis by (simp add: m q_def)
qed

lemma rd_nonneg:
  assumes "0 \<le> q"
  shows "rd q = PInf \<or> (\<exists>r. rd q = Fin r \<and> 0 \<le> r)"
  using assms rd_pos_nonneg [of q] by (auto simp: rd_def)

lemma alpha_to_hex_int:
  assumes "0 \<le> n" "n \<le> 255"
  shows "alpha_to_hex (AInt n) = Inr (format_02x (255 * n))"
proof -
  have "rd (of_int n) = Fin (of_int n)"
    using assms by (intro rd_int_exact) simp_all
  moreover have "rd (of_int (255 * n)) = Fin (of_int (255 * n))"
    using assms by (intro rd_int_exact) simp_all
  moreover have "\<lfloor>255 * rat_of_int n\<rfloor> = 255 * n"
  proof -
    have "255 * rat_of_int n = of_int (255 * n)" by simp
    then show ?thesis by (simp only: floor_of_int)
  qed
  ultimately show ?thesis
    using assms by (simp add: alpha_to_hex_def float_of_int_def finite_or_overflow_def ebind_def)
qed

lemma strip_prefix_Some: "strip_prefix p s = Some t \<Longrightarrow> s = p @ t"
  by (induction p s rule: strip_prefix.induct) (auto split: if_splits)

lemma re_alpha_needs_l: "re_search re_alpha_at s = Some g \<Longrightarrow> CHR ''l'' \<in> set s"
proof (induction s)
  case Nil
  then show ?case by (simp add: re_alpha_at_def)
next
  case (Cons c cs)
  show ?case
  proof (cases "re_alpha_at (c # cs)")
    case None
    with Cons show ?thesis by simp
  next
    case (Some r)
    then obtain t where "strip_prefix ''alpha('' (c # cs) = Some t"
      by (auto simp: re_alpha_at_def split: option.splits)
    from strip_prefix_Some [OF this] show ?thesis by simp
  qed
qed

lemma re_hex_at_length: "re_hex_at s = Some (g1, g2) \<Longrightarrow> length g1 = 7"
  by (auto simp: re_hex_at_def split: list.splits if_splits)

lemma re_search_hex_length: "re_search re_hex_at s = Some (g1, g2) \<Longrightarrow> length g1 = 7"
proof (induction s)
  case Nil
  then show ?case by (simp add: re_hex_at_def)
next
  case (Cons c cs)
  then show ?case
    by (cases "re_hex_at (c # cs)") (auto dest: re_hex_at_length)
qed


lemma digit_val_hexdigit: "is_hexdigit c \<Longrightarrow> digit_val c < 16"
  by (auto simp: digit_val_def char_class_defs)

lemma list6: "length ds = 6 \<Longrightarrow> \<exists>a b c d e f. ds = [a, b, c, d, e, f]"
  by (auto simp: numeral_eq_Suc length_Suc_conv)

lemma list8: "length ds = 8 \<Longrightarrow> \<exists>a b c d e f g h. ds = [a, b, c, d, e, f, g, h]"
  by (auto simp: numeral_eq_Suc length_Suc_conv)

lemma canonical_no_adjuster:
  assumes "canonical_literal L"
  shows "re_search re_alpha_at L = None"
proof (cases "re_search re_alpha_at L")
  case None
  then show ?thesis .
next
  case (Some g)
  then have "CHR ''l'' \<in> set L" by (rule re_alpha_needs_l)
  moreover obtain ds where "L = CHR ''#'' # ds" "list_all is_hexdigit ds"
    using assms by (cases L) (auto simp: canonical_literal_def)
  ultimately show ?thesis
    using hexdigit_not_special(7) by (auto simp: list_all_iff)
qed

lemma resolve_canonical_plain:
  assumes "canonical_literal L" "length L = 7"
  shows "try_match_color L = Inr L"
proof -
  obtain ds where L: "L = CHR ''#'' # ds" and ds: "list_all is_hexdigit ds" "length ds = 6"
    using assms by (cases L) (auto simp: canonical_literal_def)
  have cls: "list_all in_class ds"
    using ds(1) hexdigit_not_special(9) by (simp add: list_all_iff)
  have hex: "re_search re_hex_at L = Some (L, None)"
    using ds(2) cls by (simp add: L re_hex_at_def)
  note adj = canonical_no_adjuster [OF assms(1)]
  have "match_hex L = Inr (Some L)"
    by (simp add: match_hex_def hex adj get_alpha_adjuster_def ebind_def)
  moreover have "L \<noteq> []" by (simp add: L)
  ultimately show ?thesis
    using assms(2) by (simp add: try_match_color_def falsy_def get_alpha_hex_def
        get_alpha_adjuster_def adj ebind_def)
qed

lemma resolve_canonical_alpha:
  assumes "canonical_literal L" "length L = 9"
  shows "try_match_color L =
    Inr (if digit_val (L ! 7) = 0 \<and> digit_val (L ! 8) = 0 then L
         else take 7 L @ format_02x (255 * int (16 * digit_val (L ! 7) + digit_val (L ! 8))))"
proof -
  obtain ds where L: "L = CHR ''#'' # ds" and ds: "list_all is_hexdigit ds" "length ds = 8"
    using assms by (cases L) (auto simp: canonical_literal_def)
  from list8 [OF ds(2)] obtain a b c d e f g h where ds8: "ds = [a, b, c, d, e, f, g, h]"
    by blast
  have hd: "is_hexdigit g" "is_hexdigit h" using ds(1) by (simp_all add: ds8)
  have cls: "list_all in_class ds"
    using ds(1) hexdigit_not_special(9) by (simp add: list_all_iff)
  have hex: "re_search re_hex_at L = Some (CHR ''#'' # [a, b, c, d, e, f], Some [g, h])"
    using cls by (simp add: L ds8 re_hex_at_def)
  note adj = canonical_no_adjuster [OF assms(1)]
  have m: "match_hex L = Inr (Some L)"
    by (simp add: match_hex_def hex adj get_alpha_adjuster_def ebind_def) (simp add: L ds8)
  define n where "n = int (16 * digit_val g + digit_val h)"
  have "int16 [g, h] = Inr n"
    using int16_hexdigits [of "[g, h]"] hd by (simp add: n_def)
  then have gah: "get_alpha_hex L = Inr (Some (AInt n))"
    by (simp add: get_alpha_hex_def L ds8 ebind_def)
  have n: "0 \<le> n" "n \<le> 255"
    using digit_val_hexdigit [OF hd(1)] digit_val_hexdigit [OF hd(2)] by (simp_all add: n_def)
  have ne: "L \<noteq> []" by (simp add: L)
  have "try_match_color L = (if n = 0 then Inr L else hexa_to_hex (take 7 L) (AInt n))"
    by (simp add: try_match_color_def m falsy_def gah get_alpha_adjuster_def adj ebind_def ne)
  also have "\<dots> = Inr (if n = 0 then L else take 7 L @ format_02x (255 * n))"
    using alpha_to_hex_int [OF n] by (simp add: hexa_to_hex_def ebind_def)
  finally show ?thesis
    by (simp add: n_def L ds8)
qed


lemma adjuster_byte_hexdigits:
  assumes "float_of_str g = Inr x" "alpha_to_hex (AFloat x) = Inr h"
  shows "list_all is_hexdigit h \<and> h \<noteq> []"
proof -
  from assms(1) have x: "x = rd (decimal_value g)"
    by (simp add: float_of_str_def split: if_splits)
  from rd_nonneg [OF decimal_value_nonneg, of g] x assms(2)
  obtain r where r: "x = Fin r" "0 \<le> r"
    by (auto simp: alpha_to_hex_def ebind_def)
  have "0 \<le> 255 * r" using r(2) by simp
  from rd_nonneg [OF this] r(1) assms(2)
  obtain y where y: "rd (255 * r) = Fin y" "0 \<le> y"
    by (auto simp: alpha_to_hex_def ebind_def)
  have "h = format_02x \<lfloor>y\<rfloor>"
    using assms(2) r y by (simp add: alpha_to_hex_def ebind_def)
  moreover have "0 \<le> \<lfloor>y\<rfloor>" using y(2) by simp
  ultimately show ?thesis using format_02x_hexdigits by simp
qed

lemma adjuster_overrides_hex:
  assumes hex: "re_search re_hex_at s = Some (g1, g2)"
    and adj: "re_search re_alpha_at s = Some g"
    and x: "float_of_str g = Inr x" "x \<noteq> Fin 0"
    and h: "alpha_to_hex (AFloat x) = Inr h"
  shows "try_match_color s = Inr (g1 @ h)"
proof -
  have len: "length g1 = 7" using hex by (rule re_search_hex_length)
  have hd: "list_all is_hexdigit h" "h \<noteq> []"
    using adjuster_byte_hexdigits [OF x(1) h] by simp_all
  have adjuster: "get_alpha_adjuster s d = Inr (Some (AFloat x))" for d
    by (simp add: get_alpha_adjuster_def adj x(1) ebind_def)
  have m: "match_hex s = Inr (Some (g1 @ h))"
    by (simp add: match_hex_def hex adjuster x(2) h ebind_def)
  have "int16 h = Inr (int (foldl (\<lambda>acc c. 16 * acc + digit_val c) 0 h))"
    using hd by (intro int16_hexdigits)
  then obtain n where "get_alpha_hex (g1 @ h) = Inr (Some (AInt n))"
    using len hd(2) by (cases h) (simp_all add: get_alpha_hex_def ebind_def)
  then show ?thesis
    using len hd(2)
    by (simp add: try_match_color_def m falsy_def adjuster x(2) hexa_to_hex_def h ebind_def)
qed

section \<open>The claims\<close>

text \<open>
  \<^bold>\<open>C1\<close> (resolving \<^verbatim>\<open>rgb(255, 0, 0)\<close> yields \<^verbatim>\<open>#ff0000\<close>, and resolving
  \<^verbatim>\<open>rgb(255, 0, 0, 0.5)\<close> yields \<^verbatim>\<open>#ff00007f\<close>). The first half holds. For the second,
  \<^verbatim>\<open>match_rgb\<close> does produce \<^verbatim>\<open>#ff00007f\<close>, but \<^verbatim>\<open>try_match_color\<close> then reads the byte
  \<^verbatim>\<open>7f\<close> back with \<^verbatim>\<open>get_alpha_hex\<close> as the integer 127 and hands it to \<^verbatim>\<open>hexa_to_hex\<close>
  as if it were a fraction: the suffix becomes the hexadecimal text of \<open>255 * 127 = 32385\<close>.
\<close>

theorem rgb_with_alpha_rescaled:
  "try_match_color ''rgb(255, 0, 0)'' = Inr ''#ff0000'' \<and>
   try_match_color ''rgb(255, 0, 0, 0.5)'' = Inr ''#ff00007e81''"
  by (simp add: resolve_rgb_red resolve_rgb_red_half)

text \<open>
  \<^bold>\<open>C2\<close> (resolving a canonical colour literal again returns it unchanged). A canonical
  literal without alpha digits is returned unchanged. One with alpha digits is matched and
  kept by \<^verbatim>\<open>match_hex\<close>, but \<^verbatim>\<open>try_match_color\<close> then reads the alpha byte \<open>n\<close> back as an
  integer and writes \<open>255 * n\<close> in its place, unless \<open>n\<close> is zero: \<^verbatim>\<open>#112233cc\<close> is canonical,
  and resolving it gives \<^verbatim>\<open>#112233cb34\<close>.
\<close>

theorem canonical_literal_with_alpha_not_fixed:
  assumes "canonical_literal L"
  shows "(length L = 7 \<longrightarrow> try_match_color L = Inr L) \<and>
     (length L = 9 \<longrightarrow> try_match_color L =
        Inr (if digit_val (L ! 7) = 0 \<and> digit_val (L ! 8) = 0 then L
             else take 7 L @ format_02x (255 * int (16 * digit_val (L ! 7) + digit_val (L ! 8))))) \<and>
     canonical_literal ''#112233cc'' \<and>
     try_match_color ''#112233cc'' = Inr ''#112233cb34''"
  using resolve_canonical_plain [OF assms] resolve_canonical_alpha [OF assms]
  by (simp add: resolve_hex_alpha) (simp add: canonical_literal_def char_class_defs)

theorem canonical_literal_with_alpha_not_fixed_witness:
  "canonical_literal ''#112233'' \<and> length ''#112233'' = 7 \<and>
   try_match_color ''#112233'' = Inr ''#112233''"
proof -
  have c: "canonical_literal ''#112233''"
    by (simp add: canonical_literal_def char_class_defs)
  from canonical_literal_with_alpha_not_fixed [OF c] c show ?thesis by simp
qed

text \<open>
  \<^bold>\<open>C3\<close> (the result for every recognised colour is a canonical literal, with exactly two
  alpha digits when an alpha was determined). An alpha embedded in the source, in each of the
  three forms, comes out as a four-digit suffix.
\<close>

theorem embedded_alpha_result_not_canonical:
  "try_match_color ''#abcdef80'' = Inr ''#abcdef7f80'' \<and>
   try_match_color ''rgb(1, 2, 3, 1)'' = Inr ''#010203fe01'' \<and>
   try_match_color ''hsl(0, 0%, 100%, 0.5)'' = Inr ''#ffffff7e81'' \<and>
   \<not> canonical_literal ''#abcdef7f80'' \<and>
   \<not> canonical_literal ''#010203fe01'' \<and>
   \<not> canonical_literal ''#ffffff7e81''"
  by (simp add: resolve_hex_alpha_80 resolve_rgb_opaque resolve_hsl_white_half
      canonical_literal_def char_class_defs)

text \<open>
  \<^bold>\<open>C4\<close> (an explicit \<^verbatim>\<open>alpha(<number>)\<close> modifier determines the alpha byte and overrides an
  embedded alpha). Whenever \<^verbatim>\<open>re_hex\<close> finds the base literal and \<^verbatim>\<open>re_alpha\<close> finds an adjuster
  whose value is not zero, the result is the seven characters of the base followed by the
  byte of the adjuster, whatever alpha the literal carried; with \<^verbatim>\<open>alpha(0.2)\<close> the byte is
  \<^verbatim>\<open>33\<close>. With \<^verbatim>\<open>alpha(0)\<close> the adjuster is found too, but its value \<^verbatim>\<open>0.0\<close> fails the tests
  \<^verbatim>\<open>if alpha:\<close> in \<^verbatim>\<open>match_hex\<close> and \<^verbatim>\<open>try_match_color\<close>, and the embedded \<^verbatim>\<open>cc\<close> stays.
\<close>

theorem zero_alpha_adjuster_does_not_override:
  assumes "re_search re_hex_at s = Some (g1, g2)"
    and "re_search re_alpha_at s = Some g"
    and "float_of_str g = Inr x" "x \<noteq> Fin 0"
    and "alpha_to_hex (AFloat x) = Inr h"
  shows "try_match_color s = Inr (g1 @ h) \<and>
     try_match_color ''#112233cc alpha(0.2)'' = Inr ''#11223333'' \<and>
     try_match_color ''#112233cc alpha(0)'' = Inr ''#112233cc''"
  using adjuster_overrides_hex [OF assms]
  by (simp add: resolve_hex_adjust_fifth resolve_hex_adjust_zero)

theorem zero_alpha_adjuster_does_not_override_witness:
  "re_search re_hex_at ''#112233cc alpha(0.2)'' = Some (''#112233'', Some ''cc'') \<and>
   re_search re_alpha_at ''#112233cc alpha(0.2)'' = Some ''0.2'' \<and>
   float_of_str ''0.2'' = Inr (Fin (3602879701896397 / 18014398509481984)) \<and>
   alpha_to_hex (AFloat (Fin (3602879701896397 / 18014398509481984))) = Inr ''33'' \<and>
   try_match_color ''#112233cc alpha(0.2)'' = Inr (''#112233'' @ ''33'')"
  using zero_alpha_adjuster_does_not_override [of "''#112233cc alpha(0.2)''" "''#112233''"
      "Some ''cc''" "''0.2''" "Fin (3602879701896397 / 18014398509481984)" "''33''"]
  by (simp add: search_hex_adjust_fifth float_of_str_values alpha_to_hex_values
      del: re_search.simps)

text \<open>
  \<^bold>\<open>C5\<close> (the channels of an \<^verbatim>\<open>hsl\<close> value are those of the standard HSL to RGB transform
  of h/360, s/100, l/100). \<^verbatim>\<open>hsl(0, 100%, 50%)\<close> resolves to \<^verbatim>\<open>#ff0000\<close>. For the grey
  \<^verbatim>\<open>hsl(0, 0%, 50%)\<close> the transform returns one half on every channel, and \<^verbatim>\<open>match_hsl\<close>
  computes \<^verbatim>\<open>255*int(v)\<close>, truncating before it scales: the colour resolves to black.
\<close>

theorem hsl_grey_resolves_to_black:
  "try_match_color ''hsl(0, 100%, 50%)'' = Inr ''#ff0000'' \<and>
   hls_to_rgb (Fin 0) (Fin (1 / 2)) (Fin 0) = (Fin (1 / 2), Fin (1 / 2), Fin (1 / 2)) \<and>
   try_match_color ''hsl(0, 0%, 50%)'' = Inr ''#000000''"
  by (simp add: resolve_hsl_red resolve_hsl_grey hls_to_rgb_grey)

text \<open>
  \<^bold>\<open>C6\<close> (scope normalization rewrites whitespace-surrounded \<^verbatim>\<open>-\<close> or \<^verbatim>\<open>|\<close> into \<^verbatim>\<open>", "\<close> and
  collapses whitespace-surrounded parentheses into a single separating space; \<^verbatim>\<open>string - comment\<close>
  becomes \<^verbatim>\<open>string, comment\<close> and \<^verbatim>\<open>foo (bar)\<close> becomes \<^verbatim>\<open>foo bar\<close>). As stated, the last
  example fails: the closing parenthesis at the end is itself replaced by a space.
\<close>

theorem parse_scope_trailing_space: "parse_scope ''foo (bar)'' \<noteq> ''foo bar''"
  by (simp add: parse_scope_def char_class_defs)

text \<open>
  \<^bold>\<open>C6\<close>, amended. \<^verbatim>\<open>parse_scope\<close> is the underscore transform followed by two substitutions,
  each of which replaces every match found when the text is scanned from the left, a match
  starting where the previous one ended at the earliest.

  \<^item> The first replaces a \<^verbatim>\<open>-\<close> or \<^verbatim>\<open>|\<close> together with one whitespace character before it and
    one after it by \<^verbatim>\<open>", "\<close>: text in which the pattern matches nowhere is unchanged, and the
    leftmost match is replaced and the scan goes on behind it. Words without whitespace,
    underscore or parenthesis that are joined by such separators therefore come out joined by
    \<^verbatim>\<open>", "\<close>, however many they are and whatever hyphens they contain. A separator whose
    whitespace was consumed by the match before it is not rewritten: \<^verbatim>\<open>a - - b\<close> becomes
    \<^verbatim>\<open>a, - b\<close>.
  \<^item> The second replaces a parenthesis together with all the whitespace before and after it by
    one space, also at either end of the text; text without a parenthesis is unchanged.

  \<^verbatim>\<open>string - comment\<close> becomes \<^verbatim>\<open>string, comment\<close>, and \<^verbatim>\<open>foo (bar)\<close> becomes \<^verbatim>\<open>foo bar\<close>
  followed by a space.
\<close>

theorem parse_scope_rewrites:
  "(\<forall>s. parse_scope s = sub_paren (sub_separator (convert_name s))) \<and>
   (\<forall>s. separator_free s \<longrightarrow> sub_separator s = s) \<and>
   (\<forall>u a b c v.
      separator_free (u @ [a]) \<and> is_space a \<and> (b = CHR ''-'' \<or> b = CHR ''|'') \<and> is_space c \<longrightarrow>
      sub_separator (u @ a # b # c # v) = u @ '', '' @ sub_separator v) \<and>
   (\<forall>s. CHR ''('' \<notin> set s \<and> CHR '')'' \<notin> set s \<longrightarrow> sub_paren s = s) \<and>
   (\<forall>u ws p r.
      CHR ''('' \<notin> set u \<and> CHR '')'' \<notin> set u \<and> (u = [] \<or> \<not> is_space (last u)) \<and>
      list_all is_space ws \<and> (p = CHR ''('' \<or> p = CHR '')'') \<longrightarrow>
      sub_paren (u @ ws @ p # r) = u @ '' '' @ sub_paren (dropWhile is_space r)) \<and>
   (\<forall>w0 segs.
      scope_word w0 \<and> (\<forall>(m, w) \<in> set segs. is_separator m \<and> scope_word w) \<longrightarrow>
      parse_scope (w0 @ concat (map (\<lambda>(m, w). m @ w) segs))
        = w0 @ concat (map (\<lambda>(m, w). '', '' @ w) segs)) \<and>
   parse_scope ''string - comment'' = ''string, comment'' \<and>
   parse_scope ''foo (bar)'' = ''foo bar '' \<and>
   parse_scope ''a - - b'' = ''a, - b''"
proof -
  have C: "\<forall>s. parse_scope s = sub_paren (sub_separator (convert_name s))"
    by (simp add: parse_scope_def)
  have S2: "\<forall>s. separator_free s \<longrightarrow> sub_separator s = s"
    by (simp add: sub_separator_free)
  have S1: "\<forall>u a b c v.
      separator_free (u @ [a]) \<and> is_space a \<and> (b = CHR ''-'' \<or> b = CHR ''|'') \<and> is_space c \<longrightarrow>
      sub_separator (u @ a # b # c # v) = u @ '', '' @ sub_separator v"
    using sub_separator_leftmost by blast
  have P2: "\<forall>s. CHR ''('' \<notin> set s \<and> CHR '')'' \<notin> set s \<longrightarrow> sub_paren s = s"
    by (simp add: sub_paren_plain)
  have P1: "\<forall>u ws p r.
      CHR ''('' \<notin> set u \<and> CHR '')'' \<notin> set u \<and> (u = [] \<or> \<not> is_space (last u)) \<and>
      list_all is_space ws \<and> (p = CHR ''('' \<or> p = CHR '')'') \<longrightarrow>
      sub_paren (u @ ws @ p # r) = u @ '' '' @ sub_paren (dropWhile is_space r)"
    using sub_paren_at by blast
  have W: "\<forall>w0 segs.
      scope_word w0 \<and> (\<forall>(m, w) \<in> set segs. is_separator m \<and> scope_word w) \<longrightarrow>
      parse_scope (w0 @ concat (map (\<lambda>(m, w). m @ w) segs))
        = w0 @ concat (map (\<lambda>(m, w). '', '' @ w) segs)"
    using parse_scope_words by blast
  have E1: "parse_scope ''string - comment'' = ''string, comment''"
    by (simp add: parse_scope_def char_class_defs)
  have E2: "parse_scope ''foo (bar)'' = ''foo bar ''"
    by (simp add: parse_scope_def char_class_defs)
  have E3: "parse_scope ''a - - b'' = ''a, - b''"
    by (simp add: parse_scope_def char_class_defs)
  from C S2 S1 P2 P1 W E1 E2 E3 show ?thesis by (intro conjI)
qed

theorem parse_scope_rewrites_witness:
  "separator_free (''(a'' @ '' '') \<and> separator_free (''b)'' @ '' '') \<and> separator_free ''c'' \<and>
   is_space CHR '' '' \<and> is_separator '' - '' \<and> is_separator '' | '' \<and>
   scope_word ''meta.function-call'' \<and> scope_word ''string'' \<and> scope_word ''comment'' \<and>
   sub_separator ''(a | b) - c'' = ''(a, b), c'' \<and>
   sub_paren ''(a, b), c'' = '' a, b , c'' \<and>
   parse_scope ''(a | b) - c'' = '' a, b , c'' \<and>
   parse_scope ''meta.function-call - string | comment'' = ''meta.function-call, string, comment''"
proof -
  note T = parse_scope_rewrites
  have sp: "is_space CHR '' ''" by (simp add: char_class_defs)
  have f1: "separator_free (''(a'' @ '' '')" and f2: "separator_free (''b)'' @ '' '')"
    and f3: "separator_free ''c''"
    by (simp_all add: char_class_defs)
  have s3: "sub_separator ''c'' = ''c''"
    using T f3 by blast
  have s2: "sub_separator (''b)'' @ CHR '' '' # CHR ''-'' # CHR '' '' # ''c'')
      = ''b)'' @ '', '' @ sub_separator ''c''"
    using T f2 sp by blast
  have s1: "sub_separator (''(a'' @ CHR '' '' # CHR ''|'' # CHR '' '' # ''b) - c'')
      = ''(a'' @ '', '' @ sub_separator ''b) - c''"
    using T f1 sp by blast
  have sep: "sub_separator ''(a | b) - c'' = ''(a, b), c''"
    using s1 s2 s3 by simp
  have p3: "sub_paren '', c'' = '', c''"
  proof -
    have "CHR ''('' \<notin> set '', c'' \<and> CHR '')'' \<notin> set '', c''" by simp
    with T show ?thesis by blast
  qed
  have p2: "sub_paren (''a, b'' @ [] @ CHR '')'' # '', c'')
      = ''a, b'' @ '' '' @ sub_paren (dropWhile is_space '', c'')"
  proof -
    have "CHR ''('' \<notin> set ''a, b'' \<and> CHR '')'' \<notin> set ''a, b'' \<and>
        (''a, b'' = [] \<or> \<not> is_space (last ''a, b'')) \<and> list_all is_space [] \<and>
        (CHR '')'' = CHR ''('' \<or> CHR '')'' = CHR '')'')"
      by (simp add: char_class_defs)
    with T show ?thesis by blast
  qed
  have p1: "sub_paren ([] @ [] @ CHR ''('' # ''a, b), c'')
      = [] @ '' '' @ sub_paren (dropWhile is_space ''a, b), c'')"
  proof -
    have "CHR ''('' \<notin> set [] \<and> CHR '')'' \<notin> set [] \<and>
        (([] :: string) = [] \<or> \<not> is_space (last [])) \<and> list_all is_space [] \<and>
        (CHR ''('' = CHR ''('' \<or> CHR ''('' = CHR '')'')"
      by simp
    with T show ?thesis by blast
  qed
  have par: "sub_paren ''(a, b), c'' = '' a, b , c''"
    using p1 p2 p3 by (simp add: char_class_defs)
  have cn: "convert_name ''(a | b) - c'' = ''(a | b) - c''"
    by (rule convert_name_plain) simp
  have "parse_scope ''(a | b) - c'' = sub_paren (sub_separator (convert_name ''(a | b) - c''))"
    using T by blast
  then have whole: "parse_scope ''(a | b) - c'' = '' a, b , c''"
    by (simp only: cn sep par)
  have w: "scope_word ''meta.function-call''" "scope_word ''string''" "scope_word ''comment''"
    "is_separator '' - ''" "is_separator '' | ''"
    by (simp_all add: scope_word_def is_separator_def char_class_defs)
  have "scope_word ''meta.function-call'' \<and>
      (\<forall>(m, w) \<in> set [('' - '', ''string''), ('' | '', ''comment'')]. is_separator m \<and> scope_word w)"
    using w by simp
  with T have "parse_scope (''meta.function-call''
        @ concat (map (\<lambda>(m, w). m @ w) [('' - '', ''string''), ('' | '', ''comment'')]))
      = ''meta.function-call''
        @ concat (map (\<lambda>(m, w). '', '' @ w) [('' - '', ''string''), ('' | '', ''comment'')])"
    by blast
  then have words: "parse_scope ''meta.function-call - string | comment''
      = ''meta.function-call, string, comment''"
    by simp
  from f1 f2 f3 sp w sep par whole words show ?thesis by simp
qed

text \<open>
  \<^bold>\<open>C7\<close> (an underscore followed by an alphanumeric character is removed and the character
  uppercased; every other character passes through unchanged). \<^verbatim>\<open>background_color\<close> becomes
  \<^verbatim>\<open>backgroundColor\<close>. The class \<^verbatim>\<open>[a-z,A-Z,0-9]\<close> also contains the comma, so the underscore
  of \<^verbatim>\<open>a_,b\<close> is removed although a comma follows it.
\<close>

theorem underscore_before_comma_removed:
  "convert_name ''background_color'' = ''backgroundColor'' \<and> convert_name ''a_,b'' = ''a,b''"
  by (simp add: char_class_defs char_of_eq_iff)

text \<open>
  \<^bold>\<open>C8\<close> (variable resolution never raises: a declared reference resolves to the colour of
  its expression, an undeclared one passes through as text). Both hold against the table
  \<open>{accent \<mapsto> #112233}\<close>. A document without a \<^verbatim>\<open>variables\<close> field leaves the table \<^verbatim>\<open>None\<close>,
  and \<^verbatim>\<open>parse_color\<close> then calls \<^verbatim>\<open>variables.get\<close> on it: the reference \<^verbatim>\<open>var(missing)\<close>
  raises \<^verbatim>\<open>AttributeError\<close>, and so does the whole transform.
\<close>

theorem reference_without_table_raises:
  "parse_color ''var(accent)'' (Some [(''var(accent)'', ''#112233'')]) = Inr ''#112233'' \<and>
   parse_color ''var(missing)'' (Some [(''var(accent)'', ''#112233'')]) = Inr ''var(missing)'' \<and>
   parse_color ''var(missing)'' None = Inl AttributeError \<and>
   parse \<lparr>src_name = Some ''T'', src_author = Some ''A'', src_variables = None,
      src_globals = Some [(''foreground'', ''var(missing)'')], src_rules = Some []\<rparr>
     = Inl AttributeError"
  by (simp add: parse_color_declared parse_color_undeclared parse_color_no_table parse_no_table)

text \<open>
  \<^bold>\<open>C9\<close> (a document without the \<^verbatim>\<open>globals\<close> field or without the \<^verbatim>\<open>rules\<close> field fails
  with an error naming the missing field, and no theme is produced). \<^verbatim>\<open>parse\<close> reads
  \<^verbatim>\<open>source["globals"]\<close> and then \<^verbatim>\<open>source["rules"]\<close> before it builds anything, so the result is
  the \<^verbatim>\<open>KeyError\<close> of the first of the two that is missing.
\<close>

theorem parse_missing_field:
  assumes "src_globals src = None \<or> src_rules src = None"
  shows "parse src = Inl (KeyError (if src_globals src = None then ''globals'' else ''rules''))"
  using assms by (auto simp: parse_def Let_def split: option.splits)

theorem parse_missing_field_witness:
  "src_rules \<lparr>src_name = Some ''T'', src_author = None, src_variables = None,
       src_globals = Some [(''background'', ''#ffffff'')], src_rules = None\<rparr> = None \<and>
   parse \<lparr>src_name = Some ''T'', src_author = None, src_variables = None,
       src_globals = Some [(''background'', ''#ffffff'')], src_rules = None\<rparr>
     = Inl (KeyError ''rules'')"
  using parse_missing_field [of "\<lparr>src_name = Some ''T'', src_author = None, src_variables = None,
       src_globals = Some [(''background'', ''#ffffff'')], src_rules = None\<rparr>"]
  by simp




end
